theory Spec2Isabelle
  imports Main
begin

section \<open>JavaScript values\<close>

text \<open>
  The values the runtime passes around: action payloads (\<^verbatim>\<open>any[]\<close>), module
  state slices, thrown errors.  An object is known by its reference only, so that the
  equality of HOL on \<open>jsval\<close> is the \<^verbatim>\<open>===\<close> of the source: two primitives are
  equal when their values are, two objects when they are the same object.  Numbers are
  the integers (status codes, counters, timestamps); no claim needs fractions or NaN.
  \<open>Builtin n\<close> is the function or object that every plain object inherits from
  \<^verbatim>\<open>Object.prototype\<close> under the name \<open>n\<close>.
\<close>

datatype jsval = Undefined | Null | Bool bool | Num int | Str string | Obj nat | Builtin string

text \<open>\<^verbatim>\<open>ToBoolean\<close>, as \<^verbatim>\<open>!x\<close> and \<^verbatim>\<open>if (x)\<close> apply it.\<close>

fun truthy :: "jsval \<Rightarrow> bool" where
  "truthy Undefined = False"
| "truthy Null = False"
| "truthy (Bool b) = b"
| "truthy (Num n) = (n \<noteq> 0)"
| "truthy (Str s) = (s \<noteq> [])"
| "truthy (Obj r) = True"
| "truthy (Builtin n) = True"

text \<open>
  A plain object is given by its own properties.  Reading it, \<^verbatim>\<open>obj[key]\<close>, goes
  through the prototype chain: an own property gives its value; otherwise a member of
  \<^verbatim>\<open>Object.prototype\<close> (a function, or for \<^verbatim>\<open>__proto__\<close> the prototype itself) is read
  if the key names one; otherwise the result is \<^verbatim>\<open>undefined\<close>.
  \<^verbatim>\<open>Object.assign(target, source)\<close> writes every property of the source over the target.
\<close>

type_synonym object = "string \<rightharpoonup> jsval"

definition Object_prototype_names :: "string list" where
  "Object_prototype_names =
     [''constructor'', ''__defineGetter__'', ''__defineSetter__'', ''hasOwnProperty'',
      ''__lookupGetter__'', ''__lookupSetter__'', ''isPrototypeOf'', ''propertyIsEnumerable'',
      ''toString'', ''valueOf'', ''__proto__'', ''toLocaleString'']"

definition get :: "object \<Rightarrow> string \<Rightarrow> jsval" where
  "get obj key =
     (case obj key of
        Some v \<Rightarrow> v
      | None \<Rightarrow> (if key \<in> set Object_prototype_names then Builtin key else Undefined))"

definition Object_assign :: "object \<Rightarrow> object \<Rightarrow> object" where
  "Object_assign target source = target ++ source"

text \<open>\<^verbatim>\<open>Array.prototype.join\<close> on an array of strings.\<close>

fun join :: "string \<Rightarrow> string list \<Rightarrow> string" where
  "join separator [] = []"
| "join separator [x] = x"
| "join separator (x # y # ys) = x @ separator @ join separator (y # ys)"

text \<open>
  \<^verbatim>\<open>Number.prototype.toString(radix)\<close> on a natural number, most significant digit
  first; a template literal \<^verbatim>\<open>`${n}`\<close> and \<^verbatim>\<open>n.toString()\<close> use radix 10.  JavaScript
  accepts the radixes 2 to 36; the sources use 10 and 16.
\<close>

definition digit :: "nat \<Rightarrow> char" where
  "digit d = ''0123456789abcdefghijklmnopqrstuvwxyz'' ! d"

function toString :: "nat \<Rightarrow> nat \<Rightarrow> string" where
  "toString radix n =
     (if n < radix \<or> radix < 2 then [digit n]
      else toString radix (n div radix) @ [digit (n mod radix)])"
  by pat_completeness auto
termination
  by (relation "measure (\<lambda>(radix, n). n)") auto

declare toString.simps [simp del]

text \<open>Reading a decimal numeral back, to say that \<open>toString 10\<close> writes one.\<close>

definition parseDecimal :: "string \<Rightarrow> nat" where
  "parseDecimal s = foldl (\<lambda>acc c. 10 * acc + (of_char c - 48)) 0 s"

section \<open>Actions\<close>

text \<open>
  \<open>Action\<close> is the descriptor \<^verbatim>\<open>{type, payload}\<close> that a synthesized action creator
  builds (module.ts, line 43).

  Modelled from the spec: \<^verbatim>\<open>reducer.ts\<close>, which defines \<^verbatim>\<open>setStateAction\<close> and
  \<^verbatim>\<open>errorAction\<close>, is not among the sources.  \<open>setStateAction module state type\<close> is the
  state-replacement action "tagged with the module name", \<open>errorAction error actionName\<close>
  the error action whose payload is the error and the original action's type; each is a
  constructor holding the arguments its caller passes.
\<close>

datatype action =
    Action (type: string) (payload: "jsval list")
  | setStateAction string jsval string
  | errorAction jsval string

section \<open>Coroutines\<close>

text \<open>
  A \<^verbatim>\<open>SagaIterator\<close> is a generator object.  Run up to its next suspension point it has
  returned (\<open>Done\<close>), thrown (\<open>Raise\<close>), or yielded an effect and waits to be resumed
  (\<open>Yield\<close>); the scheduler resumes it with \<^verbatim>\<open>next(v)\<close>, \<^verbatim>\<open>throw(e)\<close> (the effect it
  waited on failed) or \<^verbatim>\<open>return()\<close> (cancellation), and the generator decides what comes
  next.  Return values of generators are not modelled: \<^verbatim>\<open>executeAction\<close> drops them.
  What a handler does between two suspension points (reading the store, calling
  \<^verbatim>\<open>setState\<close>) is its own; the wrapper below adds nothing there.
\<close>

datatype 'o effect = Put action | Effect 'o

datatype 'r resume = Next 'r | Throw jsval | Return

datatype ('o, 'r) SagaIterator =
    Done
  | Raise jsval
  | Yield "'o effect" "'r resume \<Rightarrow> ('o, 'r) SagaIterator"

type_synonym ('o, 'r) ActionHandler = "jsval list \<Rightarrow> ('o, 'r) SagaIterator"

text \<open>
  \<^verbatim>\<open>try { yield* inner } catch (error) { ... }\<close>: every effect of the inner generator is
  passed on, and whatever resumes the outer generator is forwarded to the inner one;
  when the inner generator throws, at its start or after any resumption, control goes to
  the catch block.
\<close>

primrec try_yield_all ::
  "(jsval \<Rightarrow> ('o, 'r) SagaIterator) \<Rightarrow> ('o, 'r) SagaIterator \<Rightarrow> ('o, 'r) SagaIterator" where
  "try_yield_all catch Done = Done"
| "try_yield_all catch (Raise error) = catch error"
| "try_yield_all catch (Yield eff k) = Yield eff (\<lambda>r. try_yield_all catch (k r))"

text \<open>
  module.ts, lines 51--57.  The catch block yields one \<^verbatim>\<open>put\<close> and then falls off the end
  of the function; a failure thrown into that \<^verbatim>\<open>yield\<close> is outside every \<^verbatim>\<open>try\<close>.
\<close>

definition executeAction ::
  "string \<Rightarrow> ('o, 'r) ActionHandler \<Rightarrow> jsval list \<Rightarrow> ('o, 'r) SagaIterator" where
  "executeAction actionName handler args =
     try_yield_all
       (\<lambda>error. Yield (Put (errorAction error actionName))
          (\<lambda>r. case r of Next v \<Rightarrow> Done | Throw e \<Rightarrow> Raise e | Return \<Rightarrow> Done))
       (handler args)"

text \<open>
  Driving a generator with the resumptions a scheduler gives it, in order: the effects it
  yielded, how it stands at the end, and the resumptions it did not consume.
\<close>

datatype outcome = Completed | Failed jsval | Suspended

primrec drive ::
  "'r resume list \<Rightarrow> ('o, 'r) SagaIterator \<Rightarrow> 'o effect list \<times> outcome \<times> 'r resume list" where
  "drive [] g =
     (case g of
        Done \<Rightarrow> ([], Completed, [])
      | Raise e \<Rightarrow> ([], Failed e, [])
      | Yield eff k \<Rightarrow> ([eff], Suspended, []))"
| "drive (r # rs) g =
     (case g of
        Done \<Rightarrow> ([], Completed, r # rs)
      | Raise e \<Rightarrow> ([], Failed e, r # rs)
      | Yield eff k \<Rightarrow> (case drive rs (k r) of (effs, res) \<Rightarrow> (eff # effs, res)))"

section \<open>The store\<close>

text \<open>
  Modelled from the spec: \<^verbatim>\<open>app.ts\<close> and \<^verbatim>\<open>reducer.ts\<close> (the process-wide \<^verbatim>\<open>app\<close>
  object, the root \<^verbatim>\<open>State\<close> and the reducer) are not among the sources.  The State Tree
  is the \<open>app\<close> field of the root state, a mapping from module name to slice
  (\<^verbatim>\<open>loading\<close> is the other field the sources read, in hooks.ts).  The store holds the root
  state and the reducer it was created with; \<open>dispatch\<close> hands the action to the
  reducer.  \<open>dispatched\<close> lists every action dispatched so far, oldest first (the
  dispatch-count probe of the spec).
\<close>

record State =
  loading :: "string \<rightharpoonup> int"
  app :: object

record Store =
  getState :: State
  reducer :: "State \<Rightarrow> action \<Rightarrow> State"
  dispatched :: "action list"

definition dispatch :: "action \<Rightarrow> Store \<Rightarrow> Store" where
  "dispatch a s = s\<lparr>getState := reducer s (getState s) a, dispatched := dispatched s @ [a]\<rparr>"

text \<open>
  Modelled from the spec: the reducer of \<^verbatim>\<open>reducer.ts\<close>, "a module's slice is only ever
  replaced wholesale".  The theorems hold for every reducer; this one serves in examples.
\<close>

definition setStateReducer :: "State \<Rightarrow> action \<Rightarrow> State" where
  "setStateReducer s a =
     (case a of setStateAction moduleName v t \<Rightarrow> s\<lparr>app := (app s)(moduleName \<mapsto> v)\<rparr> | _ \<Rightarrow> s)"

section \<open>Modules and the registrar\<close>

text \<open>
  A module instance: its two fields, and the own properties of its prototype in
  property order, each name with what \<^verbatim>\<open>module[propertyName]\<close> evaluates to: a function
  object (of an uninterpreted type \<open>'f\<close>; function objects have identity) or another
  value.  A class prototype always has the property \<^verbatim>\<open>constructor\<close>; the lifecycle hooks
  a subclass does not override live on the prototype of the base class and are not own
  properties of the module's prototype.
\<close>

datatype 'f property = Function 'f | Data jsval

record 'f Module =
  name :: string
  initialState :: jsval
  prototype :: "(string \<times> 'f property) list"

definition getOwnPropertyNames :: "'f Module \<Rightarrow> string list" where
  "getOwnPropertyNames m = map fst (prototype m)"

definition property :: "'f Module \<Rightarrow> string \<Rightarrow> 'f property option" where
  "property m propertyName = map_of (prototype m) propertyName"

fun instanceof_Function :: "'f property option \<Rightarrow> bool" where
  "instanceof_Function (Some (Function f)) = True"
| "instanceof_Function _ = False"

text \<open>module.ts, lines 59--68.\<close>

fun getKeys_loop :: "'f Module \<Rightarrow> string list \<Rightarrow> string list \<Rightarrow> string list" where
  "getKeys_loop m [] keys = keys"
| "getKeys_loop m (propertyName # rest) keys =
     getKeys_loop m rest
       (if instanceof_Function (property m propertyName) \<and> propertyName \<noteq> ''constructor''
        then keys @ [propertyName] else keys)"

definition getKeys :: "'f Module \<Rightarrow> string list" where
  "getKeys m = getKeys_loop m (getOwnPropertyNames m) []"

text \<open>
  The process-wide \<^verbatim>\<open>app\<close>: the store, the handler table (an entry is
  \<^verbatim>\<open>method.bind(module)\<close>: the method with the instance it is bound to), and the
  \<^verbatim>\<open>actionName\<close> property that \<^verbatim>\<open>register\<close> attaches to method objects.
\<close>

record 'f App =
  store :: Store
  actionHandlers :: "string \<rightharpoonup> 'f \<times> 'f Module"
  actionName :: "'f \<rightharpoonup> string"

type_synonym ActionCreator = "jsval list \<Rightarrow> action"

text \<open>
  Modelled from the spec: the class \<^verbatim>\<open>ModuleProxy\<close> is not among the sources; the record
  holds the two arguments \<^verbatim>\<open>register\<close> passes to its constructor.
\<close>

record 'f ModuleProxy =
  getModule :: "'f Module"
  getActions :: "string \<rightharpoonup> ActionCreator"

text \<open>
  The body of the \<^verbatim>\<open>forEach\<close> of module.ts, lines 38--46.  Every key comes from
  \<open>getKeys\<close>, so \<^verbatim>\<open>module[actionType]\<close> is a function; the other branch is never taken.
  An action creator is a function of its arguments alone.
\<close>

fun register_method ::
  "'f Module \<Rightarrow> 'f App \<times> (string \<rightharpoonup> ActionCreator) \<Rightarrow> string \<Rightarrow> 'f App \<times> (string \<rightharpoonup> ActionCreator)" where
  "register_method m (a, acts) actionType =
     (case property m actionType of
        Some (Function method) \<Rightarrow>
          (let qualifiedActionType = name m @ ''/'' @ actionType
           in (a\<lparr>actionName := (actionName a)(method \<mapsto> qualifiedActionType),
                 actionHandlers := (actionHandlers a)(qualifiedActionType \<mapsto> (method, m))\<rparr>,
               acts(actionType \<mapsto> (\<lambda>args. Action qualifiedActionType args))))
      | _ \<Rightarrow> (a, acts))"

text \<open>
  module.ts, lines 29--49.  The function has no \<^verbatim>\<open>throw\<close> and no check of the handler
  table: it returns for every module and every state of \<^verbatim>\<open>app\<close>.
\<close>

definition register :: "'f Module \<Rightarrow> 'f App \<Rightarrow> 'f App \<times> 'f ModuleProxy" where
  "register m a =
     (let moduleName = name m;
          a1 = (if \<not> truthy (get (app (getState (store a))) moduleName)
                then a\<lparr>store := dispatch
                       (setStateAction moduleName (initialState m) (''@@'' @ moduleName @ ''/@@init''))
                       (store a)\<rparr>
                else a);
          (a2, acts) = foldl (register_method m) (a1, Map.empty) (getKeys m)
      in (a2, \<lparr>getModule = m, getActions = acts\<rparr>))"

text \<open>The first statement of \<open>register\<close> alone (lines 31--34), for the proofs.\<close>

definition seeded :: "'f Module \<Rightarrow> 'f App \<Rightarrow> 'f App" where
  "seeded m a =
     (if \<not> truthy (get (app (getState (store a))) (name m))
      then a\<lparr>store := dispatch
             (setStateAction (name m) (initialState m) (''@@'' @ name m @ ''/@@init'')) (store a)\<rparr>
      else a)"

text \<open>
  The members that the spec says are registered, in its words: the callable members
  without the constructor, the seven lifecycle hooks and the error hook.
\<close>

definition lifecycle_hook_names :: "string list" where
  "lifecycle_hook_names =
     [''onEnter'', ''onDestroy'', ''onTick'', ''onAppActive'', ''onAppInactive'', ''onFocus'', ''onBlur'']"

definition spec_getKeys :: "'f Module \<Rightarrow> string list" where
  "spec_getKeys m =
     filter (\<lambda>p. instanceof_Function (property m p) \<and> p \<noteq> ''constructor'' \<and>
                 p \<notin> set lifecycle_hook_names \<and> p \<noteq> ''onError'')
       (getOwnPropertyNames m)"

section \<open>Module.setState\<close>

text \<open>
  Module.tsx, lines 73--75 and 85--111.  An updater acts on the draft; what it returns is
  dropped.  \<^verbatim>\<open>produce\<close> is immer's, a library outside the repository, and is a parameter:
  \<open>produce original updater\<close> gives the new value and the paths of the patches it
  reports to a patch listener (path elements as strings).  \<open>NODE_ENV\<close> is
  \<^verbatim>\<open>process.env.NODE_ENV\<close>.  A partial state is an object, an updater a function, as
  \<^verbatim>\<open>typeof stateOrUpdater === "function"\<close> tells them apart.
\<close>

type_synonym updater = "object \<Rightarrow> object"

type_synonym produce = "jsval \<Rightarrow> updater \<Rightarrow> jsval \<times> string list list"

datatype stateOrUpdater = Updater updater | PartialState object

definition state :: "'f Module \<Rightarrow> 'f App \<Rightarrow> jsval" where
  "state m a = get (app (getState (store a))) (name m)"

function setState :: "produce \<Rightarrow> string \<Rightarrow> 'f Module \<Rightarrow> stateOrUpdater \<Rightarrow> 'f App \<Rightarrow> 'f App" where
  "setState produce NODE_ENV m (Updater updater) a =
     (let originalState = state m a;
          (newState, patches) = produce originalState updater;
          patchDescriptions =
            (if NODE_ENV = ''development'' then Some (map (join ''.'') patches) else None)
      in if newState \<noteq> originalState
         then (let description = ''@@'' @ name m @ ''/setState'' @
                       (case patchDescriptions of
                          Some ds \<Rightarrow> ''['' @ join ''/'' ds @ '']''
                        | None \<Rightarrow> [])
               in a\<lparr>store := dispatch (setStateAction (name m) newState description) (store a)\<rparr>)
         else a)"
| "setState produce NODE_ENV m (PartialState partialState) a =
     setState produce NODE_ENV m (Updater (\<lambda>state. Object_assign state partialState)) a"
  by pat_completeness auto
termination
  by (relation "measure (\<lambda>(p, e, m, s, a). case s of Updater u \<Rightarrow> 0 | PartialState ps \<Rightarrow> 1)") auto

section \<open>Loggers\<close>

text \<open>
  The two logger classes of the sources: \<^verbatim>\<open>EventLogger\<close> (its events carry an
  \<^verbatim>\<open>id\<close>) and \<^verbatim>\<open>LoggerImpl\<close>.  A \<^verbatim>\<open>Date\<close> is its time in milliseconds, and every
  function that reads the clock takes the reading as \<open>now\<close>.
\<close>

datatype result_class = OK | WARN | ERROR

record Log =
  date :: int
  result :: result_class
  context' :: "string \<rightharpoonup> string"
  info :: object
  elapsedTime :: int
  action :: "string option"
  errorCode :: "string option"

record EventLog = Log +
  id' :: string

text \<open>
  Modelled from the spec: \<^verbatim>\<open>Exception.ts\<close> is not among the sources.  The classes the
  loggers test with \<^verbatim>\<open>instanceof\<close>, each with the fields the loggers read: the message;
  for an \<^verbatim>\<open>APIException\<close> the status code, the request URL and the optional error code
  and error id of the server; the component stack; the error object.  \<open>Exception\<close> is
  any other subclass.
\<close>

datatype Exception =
    NetworkConnectionException string
  | APIException string nat string "string option" "string option"
  | ReactLifecycleException string string
  | RuntimeException string jsval
  | Exception string

text \<open>
  An entry of the environment context is a string or a function that gives one; the
  context functions are taken to return.  \<^verbatim>\<open>JSON.stringify\<close> is a parameter, for a
  value and for the State Tree.  It throws on some values (a \<^verbatim>\<open>TypeError\<close> on a cyclic
  structure or a \<^verbatim>\<open>BigInt\<close>): \<open>Inl e\<close> is the throw of \<open>e\<close>.  Otherwise it returns
  (\<open>Inr\<close>) a string, or \<^verbatim>\<open>undefined\<close> (for \<^verbatim>\<open>undefined\<close>, a function or a symbol).
\<close>

datatype ctx_value = CtxString string | CtxFunction "unit \<Rightarrow> string"

fun resolve :: "ctx_value \<Rightarrow> string" where
  "resolve (CtxString v) = v"
| "resolve (CtxFunction v) = v ()"

record JSON =
  stringify :: "jsval \<Rightarrow> jsval + jsval"
  stringify_object :: "object \<Rightarrow> jsval + jsval"


text \<open>
  The fields the two classes share.  An event is an object: the queue holds references
  to events and so does the callback that \<^verbatim>\<open>appendLog\<close> returns.  \<open>eventObjects\<close> is the
  store of the event objects created so far, a reference is an index into it, and
  \<open>logQueue\<close> is the array of references; \<open>queue\<close> reads the events of the queue in
  order.  \<^verbatim>\<open>LoggerImpl.empty\<close> drops the references, not the objects.
\<close>

record 'e Logger =
  environmentContext :: "string \<rightharpoonup> ctx_value"
  logQueue :: "nat list"
  eventObjects :: "'e list"

type_synonym LoggerImpl = "Log Logger"

record EventLogger = "EventLog Logger" +
  uuidCounter :: nat

type_synonym callback = nat

definition queue :: "('e, 'y) Logger_scheme \<Rightarrow> 'e list" where
  "queue l = map (\<lambda>event. eventObjects l ! event) (logQueue l)"

text \<open>Every reference of the queue is to an event object that exists.\<close>

definition valid_queue :: "('e, 'y) Logger_scheme \<Rightarrow> bool" where
  "valid_queue l = list_all (\<lambda>event. event < length (eventObjects l)) (logQueue l)"

definition completeContext :: "('e, 'y) Logger_scheme \<Rightarrow> string \<rightharpoonup> string" where
  "completeContext l = (\<lambda>key. map_option resolve (environmentContext l key))"

text \<open>
  The closure both \<^verbatim>\<open>appendLog\<close> methods return, called at time \<open>now\<close>:
  \<^verbatim>\<open>event.elapsedTime = new Date().getTime() - event.date.getTime()\<close>.
\<close>

definition callback ::
  "callback \<Rightarrow> int \<Rightarrow> ('z Log_scheme, 'y) Logger_scheme \<Rightarrow> ('z Log_scheme, 'y) Logger_scheme" where
  "callback event now l =
     l\<lparr>eventObjects := (eventObjects l)
        [event := (eventObjects l ! event)\<lparr>elapsedTime := now - date (eventObjects l ! event)\<rparr>]\<rparr>"

definition default_info :: "object option \<Rightarrow> object" where
  "default_info info' = (case info' of None \<Rightarrow> Map.empty | Some i \<Rightarrow> i)"

subsection \<open>LoggerImpl\<close>

text \<open>\<^verbatim>\<open>LoggerImpl.appendLog\<close>; an absent \<^verbatim>\<open>info\<close> is \<open>None\<close>.\<close>

definition LoggerImpl_appendLog ::
  "int \<Rightarrow> result_class \<Rightarrow> string option \<Rightarrow> string option \<Rightarrow> object option \<Rightarrow>
   LoggerImpl \<Rightarrow> LoggerImpl \<times> callback" where
  "LoggerImpl_appendLog now result' action' errorCode' info' l =
     (let event = \<lparr>date = now, result = result', context' = completeContext l,
                   info = (case info' of None \<Rightarrow> Map.empty | Some i \<Rightarrow> i),
                   elapsedTime = 0, action = action', errorCode = errorCode'\<rparr>
      in (l\<lparr>logQueue := logQueue l @ [length (eventObjects l)],
            eventObjects := eventObjects l @ [event]\<rparr>,
          length (eventObjects l)))"

definition LoggerImpl_info ::
  "int \<Rightarrow> string \<Rightarrow> object option \<Rightarrow> LoggerImpl \<Rightarrow> LoggerImpl \<times> callback" where
  "LoggerImpl_info now action' info' l = LoggerImpl_appendLog now OK (Some action') None info' l"

definition LoggerImpl_warn ::
  "int \<Rightarrow> string \<Rightarrow> string option \<Rightarrow> object option \<Rightarrow> LoggerImpl \<Rightarrow> LoggerImpl \<times> callback" where
  "LoggerImpl_warn now errorCode' action' info' l =
     LoggerImpl_appendLog now WARN action' (Some errorCode') info' l"

definition LoggerImpl_error ::
  "int \<Rightarrow> string \<Rightarrow> string option \<Rightarrow> object option \<Rightarrow> LoggerImpl \<Rightarrow> LoggerImpl \<times> callback" where
  "LoggerImpl_error now errorCode' action' info' l =
     LoggerImpl_appendLog now ERROR action' (Some errorCode') info' l"

text \<open>
  \<^verbatim>\<open>LoggerImpl.exception\<close>; \<open>appState\<close> is \<^verbatim>\<open>app.store.getState().app\<close> at the call.
  \<^verbatim>\<open>if (exception.errorCode)\<close> holds for a string that is not empty.  The method has
  no \<^verbatim>\<open>try\<close>: when \<^verbatim>\<open>JSON.stringify\<close> throws, the method throws (\<open>Inl\<close>) before it
  reaches \<^verbatim>\<open>appendLog\<close>, and the logger stays as it was.
\<close>

fun LoggerImpl_exception ::
  "JSON \<Rightarrow> object \<Rightarrow> int \<Rightarrow> Exception \<Rightarrow> LoggerImpl \<Rightarrow> jsval + LoggerImpl \<times> callback" where
  "LoggerImpl_exception J appState now (NetworkConnectionException msg) l =
     Inr (LoggerImpl_appendLog now WARN None (Some ''NETWORK_FAILURE'')
            (Some [''errorMessage'' \<mapsto> Str msg]) l)"
| "LoggerImpl_exception J appState now (APIException msg statusCode requestURL code errorId) l =
     (let info0 = [''errorMessage'' \<mapsto> Str msg];
          errorCode' = ''API_ERROR:'' @ toString 10 statusCode;
          info1 = info0(''requestURL'' \<mapsto> Str requestURL);
          info2 = (case code of
                     Some c \<Rightarrow> (if c \<noteq> [] then info1(''errorCode'' \<mapsto> Str c) else info1)
                   | None \<Rightarrow> info1);
          info3 = (case errorId of
                     Some i \<Rightarrow> (if i \<noteq> [] then info2(''errorId'' \<mapsto> Str i) else info2)
                   | None \<Rightarrow> info2)
      in Inr (LoggerImpl_appendLog now ERROR None (Some errorCode') (Some info3) l))"
| "LoggerImpl_exception J appState now (ReactLifecycleException msg componentStack) l =
     (let info0 = [''errorMessage'' \<mapsto> Str msg];
          errorCode' = ''LIFECYCLE_ERROR'';
          info1 = info0(''stackTrace'' \<mapsto> Str componentStack)
      in case stringify_object J appState of
           Inl e \<Rightarrow> Inl e
         | Inr appStateText \<Rightarrow>
             (let info2 = info1(''appState'' \<mapsto> appStateText)
              in Inr (LoggerImpl_appendLog now ERROR None (Some errorCode') (Some info2) l)))"
| "LoggerImpl_exception J appState now (RuntimeException msg errorObject) l =
     (let info0 = [''errorMessage'' \<mapsto> Str msg];
          errorCode' = ''JS_ERROR''
      in case stringify J errorObject of
           Inl e \<Rightarrow> Inl e
         | Inr stackTrace \<Rightarrow>
             (let info1 = info0(''stackTrace'' \<mapsto> stackTrace)
              in case stringify_object J appState of
                   Inl e \<Rightarrow> Inl e
                 | Inr appStateText \<Rightarrow>
                     (let info2 = info1(''appState'' \<mapsto> appStateText)
                      in Inr (LoggerImpl_appendLog now ERROR None (Some errorCode') (Some info2) l))))"
| "LoggerImpl_exception J appState now (Exception msg) l =
     Inr (LoggerImpl_appendLog now ERROR None (Some ''ERROR'') (Some [''errorMessage'' \<mapsto> Str msg]) l)"

definition LoggerImpl_collect :: "LoggerImpl \<Rightarrow> Log list" where
  "LoggerImpl_collect l = queue l"

definition LoggerImpl_empty :: "LoggerImpl \<Rightarrow> LoggerImpl" where
  "LoggerImpl_empty l = l\<lparr>logQueue := []\<rparr>"

definition LoggerImpl_addContext :: "(string \<rightharpoonup> ctx_value) \<Rightarrow> LoggerImpl \<Rightarrow> LoggerImpl" where
  "LoggerImpl_addContext ctx l = l\<lparr>environmentContext := environmentContext l ++ ctx\<rparr>"

subsection \<open>EventLogger\<close>

text \<open>\<^verbatim>\<open>EventLogger.appendLog\<close> with \<^verbatim>\<open>getUUID\<close>.\<close>

definition EventLogger_appendLog ::
  "int \<Rightarrow> string \<Rightarrow> result_class \<Rightarrow> object \<Rightarrow> EventLogger \<Rightarrow> EventLogger \<times> callback" where
  "EventLogger_appendLog now actionOrErrorCode result' info' l =
     (let event = \<lparr>date = now, result = result', context' = completeContext l, info = info',
                   elapsedTime = 0,
                   action = (if result' = OK then Some actionOrErrorCode else None),
                   errorCode = (if result' = OK then None else Some actionOrErrorCode),
                   id' = toString 16 (uuidCounter l)\<rparr>
      in (l\<lparr>logQueue := logQueue l @ [length (eventObjects l)],
            eventObjects := eventObjects l @ [event],
            uuidCounter := uuidCounter l + 1\<rparr>,
          length (eventObjects l)))"

text \<open>
  \<^verbatim>\<open>EventLogger.log\<close>: the first argument is a string (\<open>Inl\<close>) or an exception
  (\<open>Inr\<close>); an absent \<^verbatim>\<open>info\<close> is \<open>None\<close> and defaults to the empty object.  As in
  \<^verbatim>\<open>LoggerImpl.exception\<close>, a throw of \<^verbatim>\<open>JSON.stringify\<close> is a throw of the method.
\<close>

fun EventLogger_log ::
  "JSON \<Rightarrow> object \<Rightarrow> int \<Rightarrow> string + Exception \<Rightarrow> object option \<Rightarrow>
   EventLogger \<Rightarrow> jsval + EventLogger \<times> callback" where
  "EventLogger_log J appState now (Inl action') info' l =
     Inr (EventLogger_appendLog now action' OK (default_info info') l)"
| "EventLogger_log J appState now (Inr (NetworkConnectionException msg)) info' l =
     Inr (EventLogger_appendLog now ''NETWORK_FAILURE'' WARN [''errorMessage'' \<mapsto> Str msg] l)"
| "EventLogger_log J appState now (Inr (APIException msg statusCode requestURL code errorId)) info' l =
     (let exceptionInfo0 = [''errorMessage'' \<mapsto> Str msg];
          errorCode' = ''API_ERROR:'' @ toString 10 statusCode;
          exceptionInfo1 = exceptionInfo0(''requestURL'' \<mapsto> Str requestURL);
          exceptionInfo2 = exceptionInfo1(''statusCode'' \<mapsto> Str (toString 10 statusCode))
      in Inr (EventLogger_appendLog now errorCode' ERROR exceptionInfo2 l))"
| "EventLogger_log J appState now (Inr (ReactLifecycleException msg componentStack)) info' l =
     (let exceptionInfo0 = [''errorMessage'' \<mapsto> Str msg];
          errorCode' = ''LIFECYCLE_ERROR'';
          exceptionInfo1 = exceptionInfo0(''stackTrace'' \<mapsto> Str componentStack)
      in case stringify_object J appState of
           Inl e \<Rightarrow> Inl e
         | Inr appStateText \<Rightarrow>
             (let exceptionInfo2 = exceptionInfo1(''appState'' \<mapsto> appStateText)
              in Inr (EventLogger_appendLog now errorCode' ERROR exceptionInfo2 l)))"
| "EventLogger_log J appState now (Inr (RuntimeException msg errorObject)) info' l =
     (let exceptionInfo0 = [''errorMessage'' \<mapsto> Str msg];
          errorCode' = ''JS_ERROR''
      in case stringify J errorObject of
           Inl e \<Rightarrow> Inl e
         | Inr stackTrace \<Rightarrow>
             (let exceptionInfo1 = exceptionInfo0(''stackTrace'' \<mapsto> stackTrace)
              in case stringify_object J appState of
                   Inl e \<Rightarrow> Inl e
                 | Inr appStateText \<Rightarrow>
                     (let exceptionInfo2 = exceptionInfo1(''appState'' \<mapsto> appStateText)
                      in Inr (EventLogger_appendLog now errorCode' ERROR exceptionInfo2 l))))"
| "EventLogger_log J appState now (Inr (Exception msg)) info' l =
     Inr (EventLogger_appendLog now ''error'' ERROR [''errorMessage'' \<mapsto> Str msg] l)"

definition EventLogger_setContext :: "(string \<rightharpoonup> ctx_value) \<Rightarrow> EventLogger \<Rightarrow> EventLogger" where
  "EventLogger_setContext ctx l = l\<lparr>environmentContext := ctx\<rparr>"

subsection \<open>Histories of a logger\<close>

text \<open>
  What can happen to a logger over time: a call of one of its methods, or of a callback
  it returned earlier, each at its own time and state of the application.  A call that
  throws leaves the logger as it was.
\<close>

datatype LoggerImpl_call =
    info_call string "object option"
  | warn_call string "string option" "object option"
  | error_call string "string option" "object option"
  | exception_call Exception

fun LoggerImpl_perform ::
  "JSON \<Rightarrow> object \<Rightarrow> int \<Rightarrow> LoggerImpl_call \<Rightarrow> LoggerImpl \<Rightarrow> jsval + LoggerImpl \<times> callback" where
  "LoggerImpl_perform J appState now (info_call action' info') l =
     Inr (LoggerImpl_info now action' info' l)"
| "LoggerImpl_perform J appState now (warn_call errorCode' action' info') l =
     Inr (LoggerImpl_warn now errorCode' action' info' l)"
| "LoggerImpl_perform J appState now (error_call errorCode' action' info') l =
     Inr (LoggerImpl_error now errorCode' action' info' l)"
| "LoggerImpl_perform J appState now (exception_call exception) l =
     LoggerImpl_exception J appState now exception l"

datatype LoggerImpl_op =
    Call LoggerImpl_call
  | AddContext "string \<rightharpoonup> ctx_value"
  | Empty
  | Invoke callback

fun LoggerImpl_step :: "JSON \<Rightarrow> LoggerImpl \<Rightarrow> object \<times> int \<times> LoggerImpl_op \<Rightarrow> LoggerImpl" where
  "LoggerImpl_step J l (appState, now, Call c) =
     (case LoggerImpl_perform J appState now c l of Inl e \<Rightarrow> l | Inr res \<Rightarrow> fst res)"
| "LoggerImpl_step J l (appState, now, AddContext ctx) = LoggerImpl_addContext ctx l"
| "LoggerImpl_step J l (appState, now, Empty) = LoggerImpl_empty l"
| "LoggerImpl_step J l (appState, now, Invoke event) = callback event now l"

datatype EventLogger_op =
    ECall "string + Exception" "object option"
  | SetContext "string \<rightharpoonup> ctx_value"
  | EInvoke callback

fun EventLogger_step :: "JSON \<Rightarrow> EventLogger \<Rightarrow> object \<times> int \<times> EventLogger_op \<Rightarrow> EventLogger" where
  "EventLogger_step J l (appState, now, ECall x info') =
     (case EventLogger_log J appState now x info' l of Inl e \<Rightarrow> l | Inr res \<Rightarrow> fst res)"
| "EventLogger_step J l (appState, now, SetContext ctx) = EventLogger_setContext ctx l"
| "EventLogger_step J l (appState, now, EInvoke event) = callback event now l"

text \<open>
  The failure, if any, that \<^verbatim>\<open>JSON.stringify\<close> throws while either logger builds the
  \<^verbatim>\<open>info\<close> of an exception: for a \<^verbatim>\<open>RuntimeException\<close> the error object is written
  first, then the State Tree; for a \<^verbatim>\<open>ReactLifecycleException\<close> the State Tree alone;
  for the other exceptions nothing is written with \<^verbatim>\<open>JSON.stringify\<close>.
\<close>

fun stringify_failure :: "JSON \<Rightarrow> object \<Rightarrow> Exception \<Rightarrow> jsval option" where
  "stringify_failure J appState (RuntimeException msg errorObject) =
     (case stringify J errorObject of
        Inl e \<Rightarrow> Some e
      | Inr stackTrace \<Rightarrow>
          (case stringify_object J appState of Inl e \<Rightarrow> Some e | Inr appStateText \<Rightarrow> None))"
| "stringify_failure J appState (ReactLifecycleException msg componentStack) =
     (case stringify_object J appState of Inl e \<Rightarrow> Some e | Inr appStateText \<Rightarrow> None)"
| "stringify_failure J appState (NetworkConnectionException msg) = None"
| "stringify_failure J appState (APIException msg statusCode requestURL code errorId) = None"
| "stringify_failure J appState (Exception msg) = None"

fun LoggerImpl_failure :: "JSON \<Rightarrow> object \<Rightarrow> LoggerImpl_call \<Rightarrow> jsval option" where
  "LoggerImpl_failure J appState (exception_call exception) = stringify_failure J appState exception"
| "LoggerImpl_failure J appState c = None"

fun EventLogger_failure :: "JSON \<Rightarrow> object \<Rightarrow> string + Exception \<Rightarrow> jsval option" where
  "EventLogger_failure J appState (Inr exception) = stringify_failure J appState exception"
| "EventLogger_failure J appState (Inl action') = None"

text \<open>
  A call that appends the event \<open>ev\<close>: the new object is the last one, the queue ends
  with the reference to it, and that reference is the callback's.
\<close>

definition appends ::
  "('e, 'y) Logger_scheme \<Rightarrow> 'e \<Rightarrow> ('e, 'y) Logger_scheme \<times> callback \<Rightarrow> bool" where
  "appends l ev res =
     (snd res = length (eventObjects l) \<and>
      logQueue (fst res) = logQueue l @ [length (eventObjects l)] \<and>
      eventObjects (fst res) = eventObjects l @ [ev] \<and>
      environmentContext (fst res) = environmentContext l)"

section \<open>Example data\<close>

definition app0 :: "nat App" where
  "app0 = \<lparr>store = \<lparr>getState = \<lparr>loading = Map.empty, app = Map.empty\<rparr>,
                     reducer = setStateReducer, dispatched = []\<rparr>,
           actionHandlers = Map.empty, actionName = Map.empty\<rparr>"

text \<open>A module with an overridden lifecycle hook, a handler and a property that is no function.\<close>

definition cart1 :: "nat Module" where
  "cart1 = \<lparr>name = ''cart'', initialState = Obj 0,
     prototype = [(''constructor'', Function 0), (''onEnter'', Function 1),
                  (''add'', Function 2), (''total'', Data (Num 3))]\<rparr>"

text \<open>Another instance, of another class, under the same name.\<close>

definition cart2 :: "nat Module" where
  "cart2 = \<lparr>name = ''cart'', initialState = Obj 1,
     prototype = [(''constructor'', Function 10), (''add'', Function 12)]\<rparr>"

text \<open>A State Tree that holds the slice of \<open>cart1\<close>.\<close>

definition cart_app :: "nat App" where
  "cart_app = \<lparr>store = \<lparr>getState = \<lparr>loading = Map.empty, app = [''cart'' \<mapsto> Obj 0]\<rparr>,
                     reducer = setStateReducer, dispatched = []\<rparr>,
           actionHandlers = Map.empty, actionName = Map.empty\<rparr>"

text \<open>A module, and a State Tree in which its slice is present with the value \<^verbatim>\<open>null\<close>.\<close>

definition session :: "nat Module" where
  "session = \<lparr>name = ''session'', initialState = Obj 7, prototype = [(''constructor'', Function 20)]\<rparr>"

definition session_app :: "nat App" where
  "session_app = \<lparr>store = \<lparr>getState = \<lparr>loading = Map.empty, app = [''session'' \<mapsto> Null]\<rparr>,
                     reducer = setStateReducer, dispatched = []\<rparr>,
           actionHandlers = Map.empty, actionName = Map.empty\<rparr>"

text \<open>A module whose name is a member of \<^verbatim>\<open>Object.prototype\<close>.\<close>

definition toString_module :: "nat Module" where
  "toString_module = \<lparr>name = ''toString'', initialState = Obj 8, prototype = [(''constructor'', Function 30)]\<rparr>"

text \<open>Two stand-ins for \<^verbatim>\<open>produce\<close>: one finds nothing changed, one returns a new object.\<close>

definition produce_same :: produce where
  "produce_same original recipe = (original, [])"

definition produce_fresh :: produce where
  "produce_fresh original recipe = (Obj 1, [[''items'', ''0'']])"

definition logger0 :: LoggerImpl where
  "logger0 = \<lparr>environmentContext = [''app'' \<mapsto> CtxString ''demo''], logQueue = [], eventObjects = []\<rparr>"

definition eventLogger0 :: EventLogger where
  "eventLogger0 = \<lparr>environmentContext = [''app'' \<mapsto> CtxString ''demo''], logQueue = [], eventObjects = [],
       uuidCounter = 255\<rparr>"

text \<open>
  A \<^verbatim>\<open>JSON.stringify\<close> that writes every value as \<^verbatim>\<open>{}\<close>, except that on the object
  \<open>Obj 9\<close>, which refers to itself, it throws the \<^verbatim>\<open>TypeError\<close> \<open>Obj 40\<close>, and that it
  returns \<^verbatim>\<open>undefined\<close> for \<^verbatim>\<open>undefined\<close>.
\<close>

definition json0 :: JSON where
  "json0 = \<lparr>stringify = (\<lambda>v. if v = Obj 9 then Inl (Obj 40)
                               else if v = Undefined then Inr Undefined else Inr (Str ''{}'')),
            stringify_object = (\<lambda>v. Inr (Str ''{}''))\<rparr>"

definition trace0 :: "(object \<times> int \<times> LoggerImpl_op) list" where
  "trace0 = [(Map.empty, 1020, Call (warn_call ''SLOW'' (Some ''y'') None)), (Map.empty, 1030, Invoke 1),
             (Map.empty, 1040, Empty)]"

definition etrace0 :: "(object \<times> int \<times> EventLogger_op) list" where
  "etrace0 = [(Map.empty, 1020, ECall (Inl ''y'') None), (Map.empty, 1030, EInvoke 1)]"

section \<open>Facts about coroutines\<close>

lemma drive_Done [simp]: "drive rs Done = ([], Completed, rs)"
  by (cases rs) simp_all

lemma drive_Raise [simp]: "drive rs (Raise e) = ([], Failed e, rs)"
  by (cases rs) simp_all

lemma drive_try_yield_all:
  "drive rs (try_yield_all catch g) =
     (case drive rs g of
        (effs, Failed e, rest) \<Rightarrow> (case drive rest (catch e) of (effs', res) \<Rightarrow> (effs @ effs', res))
      | (effs, Completed, rest) \<Rightarrow> (effs, Completed, rest)
      | (effs, Suspended, rest) \<Rightarrow> (effs, Suspended, rest))"
proof (induction rs arbitrary: g)
  case Nil
  show ?case by (cases g) (simp_all split: prod.splits)
next
  case (Cons r rs)
  show ?case
  proof (cases g)
    case (Yield eff k)
    then show ?thesis
      using Cons.IH [of "k r"] by (simp split: prod.splits outcome.splits)
  qed (simp_all split: prod.splits)
qed

lemma drive_append:
  "drive rs g = (effs, out, rest) \<Longrightarrow> out \<noteq> Suspended \<Longrightarrow>
   drive (rs @ rs') g = (effs, out, rest @ rs')"
proof (induction rs arbitrary: g effs)
  case Nil
  then show ?case by (cases g; cases rs') auto
next
  case (Cons r rs)
  then show ?case by (cases g) (auto split: prod.splits)
qed

text \<open>
  How \<open>executeAction\<close> runs, by how its handler runs under the same resumptions.  The
  third case is the one in which the scheduler throws into the \<^verbatim>\<open>put\<close> of the error
  action itself: that failure, not the handler's, leaves \<open>executeAction\<close>.
\<close>

lemma drive_executeAction:
  "drive rs (executeAction actionName' handler args) =
     (case drive rs (handler args) of
        (effs, Failed error, []) \<Rightarrow> (effs @ [Put (errorAction error actionName')], Suspended, [])
      | (effs, Failed error, Next v # rest) \<Rightarrow>
          (effs @ [Put (errorAction error actionName')], Completed, rest)
      | (effs, Failed error, Throw e # rest) \<Rightarrow>
          (effs @ [Put (errorAction error actionName')], Failed e, rest)
      | (effs, Failed error, Return # rest) \<Rightarrow>
          (effs @ [Put (errorAction error actionName')], Completed, rest)
      | (effs, Completed, rest) \<Rightarrow> (effs, Completed, rest)
      | (effs, Suspended, rest) \<Rightarrow> (effs, Suspended, rest))"
  unfolding executeAction_def drive_try_yield_all
  by (simp split: prod.splits outcome.splits list.splits resume.splits)

section \<open>Facts about the registrar\<close>

lemma getKeys_loop_filter:
  "getKeys_loop m ps keys =
     keys @ filter (\<lambda>p. instanceof_Function (property m p) \<and> p \<noteq> ''constructor'') ps"
  by (induction ps arbitrary: keys) simp_all

lemma set_getKeys:
  "set (getKeys m) =
     {p \<in> fst ` set (prototype m). instanceof_Function (property m p) \<and> p \<noteq> ''constructor''}"
  by (auto simp: getKeys_def getKeys_loop_filter getOwnPropertyNames_def)

lemma instanceof_Function_iff: "instanceof_Function v \<longleftrightarrow> (\<exists>f. v = Some (Function f))"
  by (cases v rule: instanceof_Function.cases) simp_all

lemma register_method_store: "store (fst (register_method m p k)) = store (fst p)"
  by (cases p) (simp add: Let_def split: option.splits property.splits)

lemma register_method_actions:
  "snd (register_method m p k) =
     (if instanceof_Function (property m k)
      then (snd p)(k \<mapsto> (\<lambda>args. Action (name m @ ''/'' @ k) args)) else snd p)"
  by (cases p) (simp add: Let_def split: option.splits property.splits)

lemma register_method_handlers:
  "actionHandlers (fst (register_method m p k)) =
     (case property m k of
        Some (Function f) \<Rightarrow> (actionHandlers (fst p))(name m @ ''/'' @ k \<mapsto> (f, m))
      | _ \<Rightarrow> actionHandlers (fst p))"
  by (cases p) (simp add: Let_def split: option.splits property.splits)

lemma foldl_register_method_store:
  "store (fst (foldl (register_method m) p ks)) = store (fst p)"
  by (induction ks rule: rev_induct) (simp_all add: register_method_store)

lemma foldl_register_method_actions:
  "snd (foldl (register_method m) p ks) k =
     (if k \<in> set ks \<and> instanceof_Function (property m k)
      then Some (\<lambda>args. Action (name m @ ''/'' @ k) args) else snd p k)"
  by (induction ks rule: rev_induct) (auto simp: register_method_actions)

lemma foldl_register_method_hit:
  "k \<in> set ks \<Longrightarrow> property m k = Some (Function f) \<Longrightarrow>
   actionHandlers (fst (foldl (register_method m) p ks)) (name m @ ''/'' @ k) = Some (f, m)"
  by (induction ks rule: rev_induct)
     (auto simp: register_method_handlers split: option.splits property.splits)

lemma foldl_register_method_miss:
  "q \<notin> (\<lambda>k. name m @ ''/'' @ k) ` set ks \<Longrightarrow>
   actionHandlers (fst (foldl (register_method m) p ks)) q = actionHandlers (fst p) q"
  by (induction ks rule: rev_induct)
     (auto simp: register_method_handlers split: option.splits property.splits)

lemma foldl_register_method_dom:
  "dom (actionHandlers (fst (foldl (register_method m) p ks))) =
     dom (actionHandlers (fst p)) \<union>
     (\<lambda>k. name m @ ''/'' @ k) ` {k \<in> set ks. instanceof_Function (property m k)}"
  by (induction ks rule: rev_induct)
     (auto simp: register_method_handlers instanceof_Function_iff split: option.splits property.splits)

lemma register_unfold:
  "register m a =
     (fst (foldl (register_method m) (seeded m a, Map.empty) (getKeys m)),
      \<lparr>getModule = m, getActions = snd (foldl (register_method m) (seeded m a, Map.empty) (getKeys m))\<rparr>)"
  by (simp add: register_def seeded_def Let_def case_prod_beta)

lemma register_store:
  "store (fst (register m a)) =
     (if \<not> truthy (get (app (getState (store a))) (name m))
      then dispatch (setStateAction (name m) (initialState m) (''@@'' @ name m @ ''/@@init'')) (store a)
      else store a)"
  by (simp add: register_unfold foldl_register_method_store seeded_def)

lemma register_actions:
  "getActions (snd (register m a)) k =
     (if k \<in> set (getKeys m) then Some (\<lambda>args. Action (name m @ ''/'' @ k) args) else None)"
  by (auto simp: register_unfold foldl_register_method_actions set_getKeys)

lemma register_handlers_hit:
  "k \<in> set (getKeys m) \<Longrightarrow> property m k = Some (Function f) \<Longrightarrow>
   actionHandlers (fst (register m a)) (name m @ ''/'' @ k) = Some (f, m)"
  using foldl_register_method_hit [of k "getKeys m" m f "(seeded m a, Map.empty)"]
  by (simp add: register_unfold)

lemma register_handlers_miss:
  "q \<notin> (\<lambda>k. name m @ ''/'' @ k) ` set (getKeys m) \<Longrightarrow>
   actionHandlers (fst (register m a)) q = actionHandlers a q"
  using foldl_register_method_miss [of q m "getKeys m" "(seeded m a, Map.empty)"]
  by (simp add: register_unfold seeded_def)

lemma register_handlers_dom:
  "dom (actionHandlers (fst (register m a))) =
     dom (actionHandlers a) \<union> (\<lambda>k. name m @ ''/'' @ k) ` set (getKeys m)"
proof -
  have "{k \<in> set (getKeys m). instanceof_Function (property m k)} = set (getKeys m)"
    by (auto simp: set_getKeys)
  then show ?thesis
    by (simp add: register_unfold foldl_register_method_dom seeded_def)
qed

lemma setState_Updater:
  "setState produce NODE_ENV m (Updater updater) a =
     (if fst (produce (state m a) updater) \<noteq> state m a
      then a\<lparr>store := dispatch
             (setStateAction (name m) (fst (produce (state m a) updater))
                (''@@'' @ name m @ ''/setState'' @
                   (if NODE_ENV = ''development''
                    then ''['' @ join ''/'' (map (join ''.'') (snd (produce (state m a) updater))) @ '']''
                    else [])))
             (store a)\<rparr>
      else a)"
  by (simp add: Let_def case_prod_beta)

lemmas example_defs = app0_def cart1_def cart2_def session_def session_app_def
  register_def getKeys_def getOwnPropertyNames_def property_def dispatch_def get_def
  Object_prototype_names_def toString_module_def
  setStateReducer_def spec_getKeys_def lifecycle_hook_names_def Let_def

section \<open>Facts about the loggers\<close>

lemma digit_decimal: "d < 10 \<Longrightarrow> of_char (digit d) - 48 = (d::nat)"
proof -
  assume "d < 10"
  then consider "d = 0" | "d = 1" | "d = 2" | "d = 3" | "d = 4" | "d = 5" | "d = 6" | "d = 7"
    | "d = 8" | "d = 9"
    by atomize_elim arith
  then show ?thesis by cases (simp_all add: digit_def)
qed

lemma parseDecimal_toString: "parseDecimal (toString 10 n) = n"
proof (induction "10::nat" n rule: toString.induct)
  case (1 n)
  show ?case
  proof (cases "n < 10")
    case True
    then show ?thesis
      by (simp add: toString.simps [of 10 n] parseDecimal_def digit_decimal)
  next
    case False
    with 1 have "parseDecimal (toString 10 (n div 10)) = n div 10" by simp
    with False show ?thesis
      by (simp add: toString.simps [of 10 n] parseDecimal_def digit_decimal)
  qed
qed

lemma LoggerImpl_appendLog_appends:
  "appends l \<lparr>date = now, result = r, context' = completeContext l, info = default_info i,
       elapsedTime = 0, action = a, errorCode = c\<rparr>
     (LoggerImpl_appendLog now r a c i l)"
  by (simp add: appends_def LoggerImpl_appendLog_def default_info_def Let_def)

lemma EventLogger_appendLog_appends:
  "appends l \<lparr>date = now, result = r, context' = completeContext l, info = i, elapsedTime = 0,
       action = (if r = OK then Some x else None), errorCode = (if r = OK then None else Some x),
       id' = toString 16 (uuidCounter l)\<rparr>
     (EventLogger_appendLog now x r i l)"
  by (simp add: appends_def EventLogger_appendLog_def Let_def)

lemma LoggerImpl_exception_appends:
  "LoggerImpl_exception J appState now e l = Inr res \<Longrightarrow>
   \<exists>ev. appends l ev res \<and> elapsedTime ev = 0 \<and> date ev = now"
  by (cases e)
     (auto simp: Let_def split: sum.splits intro!: exI LoggerImpl_appendLog_appends)

lemma LoggerImpl_exception_Inl:
  "(LoggerImpl_exception J appState now e l = Inl x) = (stringify_failure J appState e = Some x)"
  by (cases e) (auto simp: Let_def split: sum.splits)

lemma LoggerImpl_perform_appends:
  "LoggerImpl_perform J appState now c l = Inr res \<Longrightarrow>
   \<exists>ev. appends l ev res \<and> elapsedTime ev = 0 \<and> date ev = now"
proof (cases c)
  case (exception_call e)
  assume "LoggerImpl_perform J appState now c l = Inr res"
  then show ?thesis using exception_call LoggerImpl_exception_appends [of J appState now e l res] by simp
qed (auto simp: LoggerImpl_info_def LoggerImpl_warn_def LoggerImpl_error_def
        intro!: exI LoggerImpl_appendLog_appends)

lemma LoggerImpl_perform_Inl:
  "(LoggerImpl_perform J appState now c l = Inl x) = (LoggerImpl_failure J appState c = Some x)"
  by (cases c) (simp_all add: LoggerImpl_exception_Inl)

lemma LoggerImpl_perform_returns:
  "LoggerImpl_failure J appState c = None \<Longrightarrow> \<exists>res. LoggerImpl_perform J appState now c l = Inr res"
  using LoggerImpl_perform_Inl [of J appState now c l]
  by (cases "LoggerImpl_perform J appState now c l") auto

lemma EventLogger_log_appends:
  "EventLogger_log J appState now x i l = Inr res \<Longrightarrow>
   \<exists>ev. appends l ev res \<and> elapsedTime ev = 0 \<and> date ev = now"
proof (cases x)
  case (Inl a)
  assume "EventLogger_log J appState now x i l = Inr res"
  then show ?thesis using Inl by (auto intro!: exI EventLogger_appendLog_appends)
next
  case (Inr e)
  assume "EventLogger_log J appState now x i l = Inr res"
  then show ?thesis using Inr
    by (cases e) (auto simp: Let_def split: sum.splits intro!: exI EventLogger_appendLog_appends)
qed

lemma EventLogger_log_Inl:
  "(EventLogger_log J appState now x i l = Inl y) = (EventLogger_failure J appState x = Some y)"
proof (cases x)
  case (Inl a)
  then show ?thesis by simp
next
  case (Inr e)
  then show ?thesis by (cases e) (auto simp: Let_def split: sum.splits)
qed

lemma EventLogger_log_returns:
  "EventLogger_failure J appState x = None \<Longrightarrow> \<exists>res. EventLogger_log J appState now x i l = Inr res"
  using EventLogger_log_Inl [of J appState now x i l]
  by (cases "EventLogger_log J appState now x i l") auto

lemma appends_queue:
  "appends l ev res \<Longrightarrow> valid_queue l \<Longrightarrow>
   queue (fst res) = queue l @ [ev] \<and> eventObjects (fst res) ! snd res = ev \<and> valid_queue (fst res)"
  by (auto simp: appends_def valid_queue_def queue_def list_all_iff nth_append)

lemma callback_fields:
  "logQueue (callback cb t l) = logQueue l"
  "environmentContext (callback cb t l) = environmentContext l"
  "length (eventObjects (callback cb t l)) = length (eventObjects l)"
  "Logger.more (callback cb t l) = Logger.more l"
  by (simp_all add: callback_def)

lemma callback_other:
  "r \<noteq> cb \<Longrightarrow> eventObjects (callback cb t l) ! r = eventObjects l ! r"
  by (simp add: callback_def)

lemma callback_same:
  "cb < length (eventObjects l) \<Longrightarrow>
   eventObjects (callback cb t l) ! cb =
     (eventObjects l ! cb)\<lparr>elapsedTime := t - date (eventObjects l ! cb)\<rparr>"
  by (simp add: callback_def)

lemma callback_twice: "callback cb t2 (callback cb t1 l) = callback cb t2 l"
proof (cases "cb < length (eventObjects l)")
  case True
  then show ?thesis by (simp add: callback_def)
next
  case False
  then show ?thesis by (simp add: callback_def list_update_beyond)
qed

text \<open>
  The references of the queue are to objects that exist: so it is for a new logger, and
  every step of a history keeps it so.
\<close>

lemma valid_queue_new: "logQueue l = [] \<Longrightarrow> valid_queue l"
  by (simp add: valid_queue_def)

lemma LoggerImpl_step_valid_queue: "valid_queue l \<Longrightarrow> valid_queue (LoggerImpl_step J l x)"
proof (cases x)
  case (fields appState now op)
  assume l: "valid_queue l"
  show ?thesis
  proof (cases op)
    case (Call c)
    show ?thesis
    proof (cases "LoggerImpl_perform J appState now c l")
      case (Inl e)
      then show ?thesis using fields Call l by simp
    next
      case (Inr res)
      then obtain ev where "appends l ev res"
        using LoggerImpl_perform_appends by blast
      from appends_queue [OF this l] show ?thesis using fields Call Inr by simp
    qed
  next
    case (Invoke cb)
    then show ?thesis using fields l by (simp add: valid_queue_def callback_fields)
  qed (simp_all add: fields l [unfolded valid_queue_def] valid_queue_def LoggerImpl_addContext_def LoggerImpl_empty_def)
qed

lemma LoggerImpl_run_valid_queue: "valid_queue l \<Longrightarrow> valid_queue (foldl (LoggerImpl_step J) l tr)"
  by (induction tr arbitrary: l) (simp_all add: LoggerImpl_step_valid_queue)

lemma EventLogger_step_valid_queue: "valid_queue l \<Longrightarrow> valid_queue (EventLogger_step J l x)"
proof (cases x)
  case (fields appState now op)
  assume l: "valid_queue l"
  show ?thesis
  proof (cases op)
    case (ECall y i)
    show ?thesis
    proof (cases "EventLogger_log J appState now y i l")
      case (Inl e)
      then show ?thesis using fields ECall l by simp
    next
      case (Inr res)
      then obtain ev where "appends l ev res"
        using EventLogger_log_appends by blast
      from appends_queue [OF this l] show ?thesis using fields ECall Inr by simp
    qed
  next
    case (EInvoke cb)
    then show ?thesis using fields l by (simp add: valid_queue_def callback_fields)
  qed (simp_all add: fields l [unfolded valid_queue_def] valid_queue_def EventLogger_setContext_def)
qed

lemma EventLogger_run_valid_queue: "valid_queue l \<Longrightarrow> valid_queue (foldl (EventLogger_step J) l tr)"
  by (induction tr arbitrary: l) (simp_all add: EventLogger_step_valid_queue)

text \<open>
  What one step of a history does to an event object that exists already: the object
  stays, its date stays, and nothing but its own callback touches it.
\<close>

lemma appends_keeps:
  "appends l ev res \<Longrightarrow> cb < length (eventObjects l) \<Longrightarrow>
   cb < length (eventObjects (fst res)) \<and> eventObjects (fst res) ! cb = eventObjects l ! cb"
  by (simp add: appends_def nth_append)

lemma LoggerImpl_step_date:
  "cb < length (eventObjects l) \<Longrightarrow>
   cb < length (eventObjects (LoggerImpl_step J l x)) \<and>
   date (eventObjects (LoggerImpl_step J l x) ! cb) = date (eventObjects l ! cb)"
proof (cases x)
  case (fields appState now op)
  assume cb: "cb < length (eventObjects l)"
  show ?thesis
  proof (cases op)
    case (Call c)
    show ?thesis
    proof (cases "LoggerImpl_perform J appState now c l")
      case (Inl e)
      then show ?thesis using fields Call cb by simp
    next
      case (Inr res)
      then obtain ev where "appends l ev res"
        using LoggerImpl_perform_appends by blast
      then show ?thesis using appends_keeps [of l ev res cb] fields Call Inr cb by simp
    qed
  next
    case (Invoke cb')
    then show ?thesis using fields cb
      by (cases "cb' = cb") (simp_all add: callback_fields callback_other callback_same)
  qed (simp_all add: fields cb LoggerImpl_addContext_def LoggerImpl_empty_def)
qed

lemma LoggerImpl_step_untouched:
  "cb < length (eventObjects l) \<Longrightarrow> snd (snd x) \<noteq> Invoke cb \<Longrightarrow>
   eventObjects (LoggerImpl_step J l x) ! cb = eventObjects l ! cb"
proof (cases x)
  case (fields appState now op)
  assume cb: "cb < length (eventObjects l)" and x: "snd (snd x) \<noteq> Invoke cb"
  show ?thesis
  proof (cases op)
    case (Call c)
    show ?thesis
    proof (cases "LoggerImpl_perform J appState now c l")
      case (Inl e)
      then show ?thesis using fields Call by simp
    next
      case (Inr res)
      then obtain ev where "appends l ev res"
        using LoggerImpl_perform_appends by blast
      then show ?thesis using appends_keeps [of l ev res cb] fields Call Inr cb by simp
    qed
  next
    case (Invoke cb')
    then show ?thesis using fields x by (simp add: callback_other)
  qed (simp_all add: fields LoggerImpl_addContext_def LoggerImpl_empty_def)
qed

lemma LoggerImpl_run_date:
  "cb < length (eventObjects l) \<Longrightarrow>
   cb < length (eventObjects (foldl (LoggerImpl_step J) l tr)) \<and>
   date (eventObjects (foldl (LoggerImpl_step J) l tr) ! cb) = date (eventObjects l ! cb)"
proof (induction tr arbitrary: l)
  case Nil
  then show ?case by simp
next
  case (Cons x tr)
  from LoggerImpl_step_date [OF Cons.prems, of J x] Cons.IH [of "LoggerImpl_step J l x"]
  show ?case by simp
qed

lemma LoggerImpl_run_untouched:
  "cb < length (eventObjects l) \<Longrightarrow> list_all (\<lambda>(appState, now, op). op \<noteq> Invoke cb) tr \<Longrightarrow>
   eventObjects (foldl (LoggerImpl_step J) l tr) ! cb = eventObjects l ! cb"
proof (induction tr arbitrary: l)
  case Nil
  then show ?case by simp
next
  case (Cons x tr)
  from Cons.prems have x: "snd (snd x) \<noteq> Invoke cb" and tr: "list_all (\<lambda>(appState, now, op). op \<noteq> Invoke cb) tr"
    by (auto split: prod.splits)
  from LoggerImpl_step_date [OF Cons.prems(1), of J x] LoggerImpl_step_untouched [OF Cons.prems(1) x, of J]
    Cons.IH [of "LoggerImpl_step J l x", OF _ tr]
  show ?case by simp
qed

lemma EventLogger_step_date:
  "cb < length (eventObjects l) \<Longrightarrow>
   cb < length (eventObjects (EventLogger_step J l x)) \<and>
   date (eventObjects (EventLogger_step J l x) ! cb) = date (eventObjects l ! cb)"
proof (cases x)
  case (fields appState now op)
  assume cb: "cb < length (eventObjects l)"
  show ?thesis
  proof (cases op)
    case (ECall y i)
    show ?thesis
    proof (cases "EventLogger_log J appState now y i l")
      case (Inl e)
      then show ?thesis using fields ECall cb by simp
    next
      case (Inr res)
      then obtain ev where "appends l ev res"
        using EventLogger_log_appends by blast
      then show ?thesis using appends_keeps [of l ev res cb] fields ECall Inr cb by simp
    qed
  next
    case (EInvoke cb')
    then show ?thesis using fields cb
      by (cases "cb' = cb") (simp_all add: callback_fields callback_other callback_same)
  qed (simp_all add: fields cb EventLogger_setContext_def)
qed

lemma EventLogger_step_untouched:
  "cb < length (eventObjects l) \<Longrightarrow> snd (snd x) \<noteq> EInvoke cb \<Longrightarrow>
   eventObjects (EventLogger_step J l x) ! cb = eventObjects l ! cb"
proof (cases x)
  case (fields appState now op)
  assume cb: "cb < length (eventObjects l)" and x: "snd (snd x) \<noteq> EInvoke cb"
  show ?thesis
  proof (cases op)
    case (ECall y i)
    show ?thesis
    proof (cases "EventLogger_log J appState now y i l")
      case (Inl e)
      then show ?thesis using fields ECall by simp
    next
      case (Inr res)
      then obtain ev where "appends l ev res"
        using EventLogger_log_appends by blast
      then show ?thesis using appends_keeps [of l ev res cb] fields ECall Inr cb by simp
    qed
  next
    case (EInvoke cb')
    then show ?thesis using fields x by (simp add: callback_other)
  qed (simp_all add: fields EventLogger_setContext_def)
qed

lemma EventLogger_run_date:
  "cb < length (eventObjects l) \<Longrightarrow>
   cb < length (eventObjects (foldl (EventLogger_step J) l tr)) \<and>
   date (eventObjects (foldl (EventLogger_step J) l tr) ! cb) = date (eventObjects l ! cb)"
proof (induction tr arbitrary: l)
  case Nil
  then show ?case by simp
next
  case (Cons x tr)
  from EventLogger_step_date [OF Cons.prems, of J x] Cons.IH [of "EventLogger_step J l x"]
  show ?case by simp
qed

lemma EventLogger_run_untouched:
  "cb < length (eventObjects l) \<Longrightarrow> list_all (\<lambda>(appState, now, op). op \<noteq> EInvoke cb) tr \<Longrightarrow>
   eventObjects (foldl (EventLogger_step J) l tr) ! cb = eventObjects l ! cb"
proof (induction tr arbitrary: l)
  case Nil
  then show ?case by simp
next
  case (Cons x tr)
  from Cons.prems have x: "snd (snd x) \<noteq> EInvoke cb" and tr: "list_all (\<lambda>(appState, now, op). op \<noteq> EInvoke cb) tr"
    by (auto split: prod.splits)
  from EventLogger_step_date [OF Cons.prems(1), of J x] EventLogger_step_untouched [OF Cons.prems(1) x, of J]
    Cons.IH [of "EventLogger_step J l x", OF _ tr]
  show ?case by simp
qed

lemmas logger_defs = logger0_def eventLogger0_def json0_def trace0_def etrace0_def
  LoggerImpl_info_def LoggerImpl_warn_def LoggerImpl_error_def LoggerImpl_appendLog_def
  EventLogger_appendLog_def LoggerImpl_empty_def LoggerImpl_addContext_def
  EventLogger_setContext_def callback_def queue_def valid_queue_def default_info_def Let_def

section \<open>The claims\<close>

subsection \<open>C1: error containment of executeAction\<close>

text \<open>
  C1.  Whatever effects the handler's coroutine yields and however the scheduler resumes
  it: if the coroutine throws \<open>error\<close> (at its start, or after any resumption, a failure
  thrown into it by the scheduler for an effect it waited on included), then
  \<open>executeAction\<close> has not thrown but yielded, after the handler's own effects, exactly
  one more effect, the \<^verbatim>\<open>put\<close> of the error action made from \<open>error\<close> and the action's
  name, and it completes once that \<^verbatim>\<open>put\<close> is resumed.  If the coroutine completes
  without throwing, \<open>executeAction\<close> yields the handler's effects and nothing else.
\<close>

theorem executeAction_error_containment:
  "(drive rs (handler args) = (effs, Failed error, []) \<longrightarrow>
      drive rs (executeAction actionName' handler args) =
        (effs @ [Put (errorAction error actionName')], Suspended, []) \<and>
      drive (rs @ Next v # rs') (executeAction actionName' handler args) =
        (effs @ [Put (errorAction error actionName')], Completed, rs')) \<and>
   (drive rs (handler args) = (effs, Completed, rest) \<longrightarrow>
      drive rs (executeAction actionName' handler args) = (effs, Completed, rest))"
proof (intro conjI impI)
  assume h: "drive rs (handler args) = (effs, Failed error, [])"
  then show "drive rs (executeAction actionName' handler args) =
      (effs @ [Put (errorAction error actionName')], Suspended, [])"
    by (simp add: drive_executeAction)
  from h have "drive (rs @ Next v # rs') (handler args) = (effs, Failed error, Next v # rs')"
    using drive_append [of rs "handler args" effs "Failed error" "[]" "Next v # rs'"] by simp
  then show "drive (rs @ Next v # rs') (executeAction actionName' handler args) =
      (effs @ [Put (errorAction error actionName')], Completed, rs')"
    by (simp add: drive_executeAction)
next
  assume "drive rs (handler args) = (effs, Completed, rest)"
  then show "drive rs (executeAction actionName' handler args) = (effs, Completed, rest)"
    by (simp add: drive_executeAction)
qed

text \<open>
  A handler that waits on one effect and throws when resumed; and one that waits on the
  same effect and returns.
\<close>

theorem executeAction_error_containment_witness:
  "drive [Next (0::nat)] ((\<lambda>p. Yield (Effect ''call'') (\<lambda>r. Raise (Str ''boom''))) [Num 1])
     = ([Effect ''call''], Failed (Str ''boom''), []) \<and>
   drive [Next (0::nat)]
     (executeAction ''cart/add'' (\<lambda>p. Yield (Effect ''call'') (\<lambda>r. Raise (Str ''boom''))) [Num 1])
     = ([Effect ''call'', Put (errorAction (Str ''boom'') ''cart/add'')], Suspended, []) \<and>
   drive [Next (0::nat), Next 0]
     (executeAction ''cart/add'' (\<lambda>p. Yield (Effect ''call'') (\<lambda>r. Raise (Str ''boom''))) [Num 1])
     = ([Effect ''call'', Put (errorAction (Str ''boom'') ''cart/add'')], Completed, []) \<and>
   drive [Next (0::nat)] ((\<lambda>p. Yield (Effect ''call'') (\<lambda>r. Done)) [Num 1])
     = ([Effect ''call''], Completed, []) \<and>
   drive [Next (0::nat)] (executeAction ''cart/add'' (\<lambda>p. Yield (Effect ''call'') (\<lambda>r. Done)) [Num 1])
     = ([Effect ''call''], Completed, [])"
proof -
  let ?bad = "\<lambda>p::jsval list. Yield (Effect ''call'') (\<lambda>r::nat resume. Raise (Str ''boom''))"
  let ?good = "\<lambda>p::jsval list. Yield (Effect ''call'') (\<lambda>r::nat resume. Done)"
  have bad: "drive [Next 0] (?bad [Num 1]) = ([Effect ''call''], Failed (Str ''boom''), [])"
    by simp
  have good: "drive [Next 0] (?good [Num 1]) = ([Effect ''call''], Completed, [])"
    by simp
  from bad executeAction_error_containment
    [of "[Next 0]" ?bad "[Num 1]" "[Effect ''call'']" "Str ''boom''" "''cart/add''" 0 "[]"]
  have 1: "drive [Next 0] (executeAction ''cart/add'' ?bad [Num 1])
      = ([Effect ''call'', Put (errorAction (Str ''boom'') ''cart/add'')], Suspended, [])"
    and 2: "drive [Next 0, Next 0] (executeAction ''cart/add'' ?bad [Num 1])
      = ([Effect ''call'', Put (errorAction (Str ''boom'') ''cart/add'')], Completed, [])"
    by simp_all
  from good executeAction_error_containment
    [of "[Next 0]" ?good "[Num 1]" "[Effect ''call'']" "Str ''boom''" "''cart/add''" 0 "[]" "[]"]
  have 3: "drive [Next 0] (executeAction ''cart/add'' ?good [Num 1]) = ([Effect ''call''], Completed, [])"
    by simp
  from bad good 1 2 3 show ?thesis by blast
qed

subsection \<open>C2: setState dispatches if and only if the produced value is another one\<close>

text \<open>
  C2.  For every module, every updater function and every \<^verbatim>\<open>produce\<close>: if the value
  produced from the module's slice is the slice itself (equal by identity), \<open>setState\<close>
  leaves the whole of \<^verbatim>\<open>app\<close> as it was, so nothing is dispatched; if it is another
  value, \<open>setState\<close> dispatches exactly one action, the state-replacement action for
  the module's name with the produced value.  Hence an action is dispatched if and only
  if the produced value differs by identity from the slice.
\<close>

theorem setState_dispatch_iff_changed:
  "(fst (produce (state m a) updater) = state m a \<longrightarrow>
      setState produce NODE_ENV m (Updater updater) a = a) \<and>
   (fst (produce (state m a) updater) \<noteq> state m a \<longrightarrow>
      dispatched (store (setState produce NODE_ENV m (Updater updater) a)) =
        dispatched (store a) @
          [setStateAction (name m) (fst (produce (state m a) updater))
             (''@@'' @ name m @ ''/setState'' @
                (if NODE_ENV = ''development''
                 then ''['' @ join ''/'' (map (join ''.'') (snd (produce (state m a) updater))) @ '']''
                 else []))]) \<and>
   ((dispatched (store (setState produce NODE_ENV m (Updater updater) a)) \<noteq> dispatched (store a)) =
      (fst (produce (state m a) updater) \<noteq> state m a))"
  unfolding setState_Updater by (simp add: dispatch_def)

text \<open>
  On a State Tree holding the slice of \<open>cart1\<close>: an updater under which \<^verbatim>\<open>produce\<close>
  returns the slice, and one under which it returns a new object.
\<close>

theorem setState_dispatch_iff_changed_witness:
  "fst (produce_same (state cart1 cart_app) (\<lambda>draft. draft)) = state cart1 cart_app \<and>
   setState produce_same ''development'' cart1 (Updater (\<lambda>draft. draft)) cart_app = cart_app \<and>
   fst (produce_fresh (state cart1 cart_app) (\<lambda>draft. draft(''items'' \<mapsto> Obj 2))) \<noteq> state cart1 cart_app \<and>
   dispatched (store (setState produce_fresh ''development'' cart1
       (Updater (\<lambda>draft. draft(''items'' \<mapsto> Obj 2))) cart_app)) =
     [setStateAction ''cart'' (Obj 1) ''@@cart/setState[items.0]'']"
proof -
  have same: "fst (produce_same (state cart1 cart_app) (\<lambda>draft. draft)) = state cart1 cart_app"
    by (simp add: produce_same_def)
  have fresh: "fst (produce_fresh (state cart1 cart_app) (\<lambda>draft. draft(''items'' \<mapsto> Obj 2))) \<noteq> state cart1 cart_app"
    by (simp add: produce_fresh_def state_def cart1_def cart_app_def get_def)
  from same setState_dispatch_iff_changed [of produce_same cart1 cart_app "\<lambda>draft. draft" "''development''"]
  have 1: "setState produce_same ''development'' cart1 (Updater (\<lambda>draft. draft)) cart_app = cart_app"
    by blast
  from fresh setState_dispatch_iff_changed
    [of produce_fresh cart1 cart_app "\<lambda>draft. draft(''items'' \<mapsto> Obj 2)" "''development''"]
  have "dispatched (store (setState produce_fresh ''development'' cart1
       (Updater (\<lambda>draft. draft(''items'' \<mapsto> Obj 2))) cart_app)) =
     dispatched (store cart_app) @
          [setStateAction (name cart1) (fst (produce_fresh (state cart1 cart_app) (\<lambda>draft. draft(''items'' \<mapsto> Obj 2))))
             (''@@'' @ name cart1 @ ''/setState'' @
                (if ''development'' = ''development''
                 then ''['' @ join ''/'' (map (join ''.'') (snd (produce_fresh (state cart1 cart_app) (\<lambda>draft. draft(''items'' \<mapsto> Obj 2))))) @ '']''
                 else []))]"
    by blast
  then have 2: "dispatched (store (setState produce_fresh ''development'' cart1
       (Updater (\<lambda>draft. draft(''items'' \<mapsto> Obj 2))) cart_app)) =
     [setStateAction ''cart'' (Obj 1) ''@@cart/setState[items.0]'']"
    by (simp add: produce_fresh_def cart1_def cart_app_def)
  from same fresh 1 2 show ?thesis by blast
qed

subsection \<open>C3: registering a second module under a name already registered\<close>

text \<open>
  C3, amended.  \<open>register\<close> has no path that rejects a module: it returns for every
  module and every state.  When a second module is registered under the name of a first,
  the proxy returned is the second module's, every handler-table entry \<^verbatim>\<open>name/k\<close> for
  a method \<open>k\<close> of the second module is bound to the second module (the entry of the
  first, if there was one, is overwritten), and the entries \<^verbatim>\<open>name/k\<close> for the names
  \<open>k\<close> the second module does not register stay as the first registration left them.
\<close>

theorem register_duplicate_last_wins:
  "name m2 = name m1 \<Longrightarrow>
   getModule (snd (register m2 (fst (register m1 a)))) = m2 \<and>
   (\<forall>k f. k \<in> set (getKeys m2) \<and> property m2 k = Some (Function f) \<longrightarrow>
      actionHandlers (fst (register m2 (fst (register m1 a)))) (name m1 @ ''/'' @ k) = Some (f, m2)) \<and>
   (\<forall>k. k \<notin> set (getKeys m2) \<longrightarrow>
      actionHandlers (fst (register m2 (fst (register m1 a)))) (name m1 @ ''/'' @ k) =
      actionHandlers (fst (register m1 a)) (name m1 @ ''/'' @ k))"
proof (intro conjI allI impI)
  show "getModule (snd (register m2 (fst (register m1 a)))) = m2"
    by (simp add: register_unfold)
next
  fix k f
  assume "name m2 = name m1" and "k \<in> set (getKeys m2) \<and> property m2 k = Some (Function f)"
  then show "actionHandlers (fst (register m2 (fst (register m1 a)))) (name m1 @ ''/'' @ k) = Some (f, m2)"
    using register_handlers_hit [of k m2 f "fst (register m1 a)"] by simp
next
  fix k
  assume n: "name m2 = name m1" and "k \<notin> set (getKeys m2)"
  then have "name m1 @ ''/'' @ k \<notin> (\<lambda>k. name m2 @ ''/'' @ k) ` set (getKeys m2)"
    by auto
  then show "actionHandlers (fst (register m2 (fst (register m1 a)))) (name m1 @ ''/'' @ k) =
      actionHandlers (fst (register m1 a)) (name m1 @ ''/'' @ k)"
    by (rule register_handlers_miss)
qed

text \<open>
  The claim as the spec states it fails: \<open>cart1\<close> and \<open>cart2\<close> are two distinct
  instances named \<^verbatim>\<open>cart\<close>; registering \<open>cart2\<close> after \<open>cart1\<close> returns, and the entry
  \<^verbatim>\<open>cart/add\<close>, bound to \<open>cart1\<close> before, is bound to \<open>cart2\<close> afterwards.
\<close>

theorem register_duplicate_counterexample:
  "name cart1 = name cart2 \<and> cart1 \<noteq> cart2 \<and>
   actionHandlers (fst (register cart1 app0)) ''cart/add'' = Some (2, cart1) \<and>
   actionHandlers (fst (register cart2 (fst (register cart1 app0)))) ''cart/add'' = Some (12, cart2)"
  by (simp add: example_defs)

theorem register_duplicate_last_wins_witness:
  "name cart2 = name cart1 \<and>
   getModule (snd (register cart2 (fst (register cart1 app0)))) = cart2 \<and>
   ''add'' \<in> set (getKeys cart2) \<and> property cart2 ''add'' = Some (Function 12) \<and>
   actionHandlers (fst (register cart2 (fst (register cart1 app0)))) ''cart/add'' = Some (12, cart2) \<and>
   ''onEnter'' \<notin> set (getKeys cart2) \<and>
   actionHandlers (fst (register cart2 (fst (register cart1 app0)))) ''cart/onEnter'' = Some (1, cart1)"
proof -
  have n: "name cart2 = name cart1" by (simp add: cart1_def cart2_def)
  have k: "''add'' \<in> set (getKeys cart2) \<and> property cart2 ''add'' = Some (Function 12)"
    by (simp add: example_defs)
  have k': "''onEnter'' \<notin> set (getKeys cart2)"
    by (simp add: example_defs)
  have first: "actionHandlers (fst (register cart1 app0)) ''cart/onEnter'' = Some (1, cart1)"
    by (simp add: example_defs)
  note t = register_duplicate_last_wins [OF n, of app0]
  from t have "getModule (snd (register cart2 (fst (register cart1 app0)))) = cart2"
    by blast
  moreover from t k have "actionHandlers (fst (register cart2 (fst (register cart1 app0))))
      (name cart1 @ ''/'' @ ''add'') = Some (12, cart2)"
    by blast
  moreover from t k' have "actionHandlers (fst (register cart2 (fst (register cart1 app0))))
      (name cart1 @ ''/'' @ ''onEnter'') = actionHandlers (fst (register cart1 app0)) (name cart1 @ ''/'' @ ''onEnter'')"
    by blast
  moreover have "name cart1 = ''cart''" by (simp add: cart1_def)
  ultimately show ?thesis using n k k' first by simp
qed

subsection \<open>C4: seeding of the initial state\<close>

text \<open>
  C4, amended.  The test of \<open>register\<close> is on the value read under the module's name,
  not on its presence.  If that value is truthy (every object is, however it was
  modified), \<open>register\<close> leaves the store as it was: nothing is dispatched and the State
  Tree is unchanged.  If it is falsy, \<open>register\<close> dispatches exactly one action, the
  seeding action with the module's \<open>initialState\<close> and the type \<^verbatim>\<open>@@name/@@init\<close>.
  The value read is truthy when the slice is present with a truthy value, and also when
  no slice is present but the name is a member inherited from \<^verbatim>\<open>Object.prototype\<close>
  (\<^verbatim>\<open>toString\<close>, \<^verbatim>\<open>constructor\<close>, ...); it is falsy when the slice is present with
  the value \<^verbatim>\<open>null\<close>, \<^verbatim>\<open>false\<close>, \<^verbatim>\<open>0\<close>, the empty string or \<^verbatim>\<open>undefined\<close>, and when
  no slice is present under a name that \<^verbatim>\<open>Object.prototype\<close> does not have.
\<close>

theorem register_seeds_iff_falsy:
  "(truthy (get (app (getState (store a))) (name m)) \<longrightarrow>
      store (fst (register m a)) = store a) \<and>
   (\<not> truthy (get (app (getState (store a))) (name m)) \<longrightarrow>
      dispatched (store (fst (register m a))) =
        dispatched (store a) @
          [setStateAction (name m) (initialState m) (''@@'' @ name m @ ''/@@init'')] \<and>
      getState (store (fst (register m a))) =
        reducer (store a) (getState (store a))
          (setStateAction (name m) (initialState m) (''@@'' @ name m @ ''/@@init''))) \<and>
   truthy (get (app (getState (store a))) (name m)) =
     (case app (getState (store a)) (name m) of
        Some v \<Rightarrow> truthy v
      | None \<Rightarrow> name m \<in> set Object_prototype_names)"
  by (simp add: register_store dispatch_def get_def split: option.splits)

text \<open>
  The claim as the spec states it fails: in \<open>session_app\<close> the slice of \<open>session\<close> is
  present, with the value \<^verbatim>\<open>null\<close>; \<open>register\<close> dispatches the seeding action, and
  under the reducer of the spec the slice is replaced by the initial state.
\<close>

theorem register_seeding_counterexample:
  "app (getState (store session_app)) ''session'' = Some Null \<and>
   name session = ''session'' \<and>
   dispatched (store session_app) = [] \<and>
   dispatched (store (fst (register session session_app))) =
     [setStateAction ''session'' (Obj 7) ''@@session/@@init''] \<and>
   app (getState (store (fst (register session session_app)))) ''session'' = Some (Obj 7)"
  by (simp add: example_defs)

text \<open>
  Registering \<open>cart1\<close> on an empty State Tree seeds its slice; registering it again
  changes nothing in the store.  Registering a module named \<^verbatim>\<open>toString\<close> on an empty
  State Tree seeds nothing.
\<close>

theorem register_seeds_iff_falsy_witness:
  "app (getState (store app0)) (name toString_module) = None \<and>
   truthy (get (app (getState (store app0))) (name toString_module)) \<and>
   store (fst (register toString_module app0)) = store app0 \<and>
   dispatched (store (fst (register toString_module app0))) = [] \<and>
   truthy (get (app (getState (store (fst (register cart1 app0))))) (name cart1)) \<and>
   store (fst (register cart1 (fst (register cart1 app0)))) = store (fst (register cart1 app0)) \<and>
   \<not> truthy (get (app (getState (store app0))) (name cart1)) \<and>
   dispatched (store (fst (register cart1 app0))) = [setStateAction ''cart'' (Obj 0) ''@@cart/@@init''] \<and>
   app (getState (store (fst (register cart1 app0)))) ''cart'' = Some (Obj 0)"
proof -
  have t: "truthy (get (app (getState (store (fst (register cart1 app0))))) (name cart1))"
    by (simp add: example_defs)
  have f: "\<not> truthy (get (app (getState (store app0))) (name cart1))"
    by (simp add: example_defs)
  from t register_seeds_iff_falsy [of "fst (register cart1 app0)" cart1]
  have s1: "store (fst (register cart1 (fst (register cart1 app0)))) = store (fst (register cart1 app0))"
    by blast
  from f register_seeds_iff_falsy [of app0 cart1]
  have s2: "dispatched (store (fst (register cart1 app0))) =
        dispatched (store app0) @
          [setStateAction (name cart1) (initialState cart1) (''@@'' @ name cart1 @ ''/@@init'')]"
    and s3: "getState (store (fst (register cart1 app0))) =
        reducer (store app0) (getState (store app0))
          (setStateAction (name cart1) (initialState cart1) (''@@'' @ name cart1 @ ''/@@init''))"
    by blast+
  from s2 have d2: "dispatched (store (fst (register cart1 app0))) = [setStateAction ''cart'' (Obj 0) ''@@cart/@@init'']"
    by (simp add: app0_def cart1_def)
  from s3 have d3: "app (getState (store (fst (register cart1 app0)))) ''cart'' = Some (Obj 0)"
    by (simp add: app0_def cart1_def setStateReducer_def)
  have n: "app (getState (store app0)) (name toString_module) = None"
    by (simp add: example_defs)
  have tt: "truthy (get (app (getState (store app0))) (name toString_module))"
    by (simp add: example_defs)
  from tt register_seeds_iff_falsy [of app0 toString_module]
  have s4: "store (fst (register toString_module app0)) = store app0"
    by blast
  then have d4: "dispatched (store (fst (register toString_module app0))) = []"
    by (simp add: app0_def)
  from t f s1 d2 d3 n tt s4 d4 show ?thesis by blast
qed

subsection \<open>C5: the members that are registered\<close>

text \<open>
  C5, amended.  The members that \<open>register\<close> turns into action creators and
  handler-table entries are exactly the own properties of the module's prototype that
  are functions, the constructor excluded and nothing else: \<open>getKeys\<close> compares the
  name with \<^verbatim>\<open>constructor\<close> only, so a lifecycle hook or an \<^verbatim>\<open>onError\<close> that the
  module's class overrides is registered like every other method.  (The exclusion of
  those names is in the type \<^verbatim>\<open>HandlerKeys\<close> only.)
\<close>

theorem register_every_method_but_constructor:
  "set (getKeys m) =
     {p. p \<in> set (getOwnPropertyNames m) \<and> instanceof_Function (property m p) \<and> p \<noteq> ''constructor''} \<and>
   dom (getActions (snd (register m a))) = set (getKeys m) \<and>
   dom (actionHandlers (fst (register m a))) =
     dom (actionHandlers a) \<union> (\<lambda>k. name m @ ''/'' @ k) ` set (getKeys m)"
proof (intro conjI)
  show "set (getKeys m) =
     {p. p \<in> set (getOwnPropertyNames m) \<and> instanceof_Function (property m p) \<and> p \<noteq> ''constructor''}"
    by (auto simp: set_getKeys getOwnPropertyNames_def)
  show "dom (getActions (snd (register m a))) = set (getKeys m)"
    by (auto simp: dom_def register_actions)
  show "dom (actionHandlers (fst (register m a))) =
     dom (actionHandlers a) \<union> (\<lambda>k. name m @ ''/'' @ k) ` set (getKeys m)"
    by (rule register_handlers_dom)
qed

text \<open>
  The claim as the spec states it fails: \<open>cart1\<close> overrides \<^verbatim>\<open>onEnter\<close>; the spec's
  members are \<^verbatim>\<open>add\<close> alone, while \<open>register\<close> makes an action creator for
  \<^verbatim>\<open>onEnter\<close> and the handler-table entry \<^verbatim>\<open>cart/onEnter\<close>.
\<close>

theorem getKeys_counterexample:
  "property cart1 ''onEnter'' = Some (Function 1) \<and>
   ''onEnter'' \<in> set lifecycle_hook_names \<and>
   getKeys cart1 = [''onEnter'', ''add''] \<and>
   spec_getKeys cart1 = [''add''] \<and>
   dom (getActions (snd (register cart1 app0))) = {''onEnter'', ''add''} \<and>
   map_option (\<lambda>creator. creator []) (getActions (snd (register cart1 app0)) ''onEnter'') =
     Some (Action ''cart/onEnter'' []) \<and>
   actionHandlers (fst (register cart1 app0)) ''cart/onEnter'' = Some (1, cart1)"
  by (simp add: example_defs) (auto simp: dom_def)

theorem register_every_method_but_constructor_witness:
  "set (getKeys cart1) = {''onEnter'', ''add''} \<and>
   dom (getActions (snd (register cart1 app0))) = {''onEnter'', ''add''} \<and>
   dom (actionHandlers (fst (register cart1 app0))) = {''cart/onEnter'', ''cart/add''}"
proof -
  have k: "getKeys cart1 = [''onEnter'', ''add'']" "name cart1 = ''cart''" "actionHandlers app0 = Map.empty"
    by (simp_all add: example_defs)
  from register_every_method_but_constructor [of cart1 app0] show ?thesis
    unfolding k by auto
qed

subsection \<open>C6: the shape of an action creator\<close>

text \<open>
  C6.  For every module, every method \<open>k\<close> that \<open>register\<close> registers and every list
  of arguments, the action creator \<^verbatim>\<open>actions.k\<close> returns the descriptor with type
  \<^verbatim>\<open>name/k\<close> and the arguments, in order, as payload.  The creator is a function of its
  arguments alone: it takes no store, handler table or log queue and returns none, and it
  is the same creator whatever the state of \<^verbatim>\<open>app\<close> was at registration.
\<close>

theorem action_creator_shape:
  "k \<in> set (getKeys m) \<Longrightarrow>
   (\<exists>creator. getActions (snd (register m a)) k = Some creator \<and>
      (\<forall>args. creator args = Action (name m @ ''/'' @ k) args \<and>
         type (creator args) = name m @ ''/'' @ k \<and> payload (creator args) = args)) \<and>
   getActions (snd (register m a')) k = getActions (snd (register m a)) k"
  by (simp add: register_actions)

text \<open>
  The example of the spec: \<^verbatim>\<open>actions.add(1, "x")\<close>.
\<close>

theorem action_creator_shape_witness:
  "''add'' \<in> set (getKeys cart1) \<and>
   map_option (\<lambda>creator. creator [Num 1, Str ''x'']) (getActions (snd (register cart1 app0)) ''add'') =
     Some (Action ''cart/add'' [Num 1, Str ''x''])"
proof -
  have k: "''add'' \<in> set (getKeys cart1)"
    by (simp add: example_defs)
  from action_creator_shape [OF k, of app0 app0]
  obtain creator where "getActions (snd (register cart1 app0)) ''add'' = Some creator"
    and "creator [Num 1, Str ''x''] = Action (name cart1 @ ''/'' @ ''add'') [Num 1, Str ''x'']"
    by blast
  then show ?thesis using k by (simp add: cart1_def)
qed

subsection \<open>C7: setState with a partial state\<close>

text \<open>
  C7.  For every module and every partial state, \<open>setState\<close> on the partial state is
  \<open>setState\<close> on the updater \<^verbatim>\<open>draft => Object.assign(draft, partialState)\<close>: the
  resulting \<^verbatim>\<open>app\<close> is the same, and with it the State Tree and the actions
  dispatched.
\<close>

theorem setState_partial_is_assign:
  "setState produce NODE_ENV m (PartialState partialState) a =
     setState produce NODE_ENV m (Updater (\<lambda>draft. Object_assign draft partialState)) a \<and>
   getState (store (setState produce NODE_ENV m (PartialState partialState) a)) =
     getState (store (setState produce NODE_ENV m (Updater (\<lambda>draft. Object_assign draft partialState)) a)) \<and>
   dispatched (store (setState produce NODE_ENV m (PartialState partialState) a)) =
     dispatched (store (setState produce NODE_ENV m (Updater (\<lambda>draft. Object_assign draft partialState)) a))"
  by simp

theorem setState_partial_is_assign_witness:
  "setState produce_fresh ''production'' cart1 (PartialState [''items'' \<mapsto> Obj 2]) cart_app =
     setState produce_fresh ''production'' cart1
       (Updater (\<lambda>draft. Object_assign draft [''items'' \<mapsto> Obj 2])) cart_app \<and>
   dispatched (store (setState produce_fresh ''production'' cart1 (PartialState [''items'' \<mapsto> Obj 2]) cart_app)) =
     [setStateAction ''cart'' (Obj 1) ''@@cart/setState'']"
proof -
  note t = setState_partial_is_assign [of produce_fresh "''production''" cart1 "[''items'' \<mapsto> Obj 2]" cart_app]
  have "dispatched (store (setState produce_fresh ''production'' cart1
       (Updater (\<lambda>draft. Object_assign draft [''items'' \<mapsto> Obj 2])) cart_app)) =
     [setStateAction ''cart'' (Obj 1) ''@@cart/setState'']"
    unfolding setState_Updater
    by (simp add: produce_fresh_def state_def cart1_def cart_app_def get_def dispatch_def)
  with t show ?thesis by simp
qed

subsection \<open>C8: classification of exceptions\<close>

text \<open>
  C8, amended.  On a logger whose queue refers to existing events (\<open>valid_queue\<close>: every
  logger a history leads to): for an \<^verbatim>\<open>APIException\<close> with status code \<open>s\<close>, each logger appends
  exactly one event, with result \<^verbatim>\<open>ERROR\<close>, error code \<^verbatim>\<open>API_ERROR:\<close> followed by
  the decimal numeral of \<open>s\<close>, and \<^verbatim>\<open>info.requestURL\<close> the exception's request URL;
  \<^verbatim>\<open>EventLogger.log\<close> also sets \<^verbatim>\<open>info.statusCode\<close> to the decimal numeral of \<open>s\<close>,
  while \<^verbatim>\<open>LoggerImpl.exception\<close> sets no \<^verbatim>\<open>info.statusCode\<close>.  For a
  \<^verbatim>\<open>NetworkConnectionException\<close> each logger appends exactly one event, with result
  \<^verbatim>\<open>WARN\<close> and error code \<^verbatim>\<open>NETWORK_FAILURE\<close>.
\<close>

theorem exception_classification:
  "(valid_queue l \<longrightarrow>
      (\<exists>l1 cb ev. LoggerImpl_exception J appState now
                (APIException msg statusCode requestURL code errorId) l = Inr (l1, cb) \<and>
          queue l1 = queue l @ [ev] \<and>
          result ev = ERROR \<and>
          errorCode ev = Some (''API_ERROR:'' @ toString 10 statusCode) \<and>
          info ev ''requestURL'' = Some (Str requestURL) \<and>
          info ev ''statusCode'' = None) \<and>
      (\<exists>l1 cb ev. LoggerImpl_exception J appState now (NetworkConnectionException msg) l =
            Inr (l1, cb) \<and>
          queue l1 = queue l @ [ev] \<and>
          result ev = WARN \<and> errorCode ev = Some ''NETWORK_FAILURE'')) \<and>
   (valid_queue el \<longrightarrow>
      (\<exists>el1 cb ev. EventLogger_log J appState now
                (Inr (APIException msg statusCode requestURL code errorId)) info' el = Inr (el1, cb) \<and>
          queue el1 = queue el @ [ev] \<and>
          result ev = ERROR \<and>
          errorCode ev = Some (''API_ERROR:'' @ toString 10 statusCode) \<and>
          info ev ''requestURL'' = Some (Str requestURL) \<and>
          info ev ''statusCode'' = Some (Str (toString 10 statusCode))) \<and>
      (\<exists>el1 cb ev. EventLogger_log J appState now (Inr (NetworkConnectionException msg)) info' el =
            Inr (el1, cb) \<and>
          queue el1 = queue el @ [ev] \<and>
          result ev = WARN \<and> errorCode ev = Some ''NETWORK_FAILURE'')) \<and>
   parseDecimal (toString 10 statusCode) = statusCode"
proof (intro conjI impI)
  assume l: "valid_queue l"
  let ?info1 = "[''errorMessage'' \<mapsto> Str msg, ''requestURL'' \<mapsto> Str requestURL]"
  let ?info2 = "case code of Some c \<Rightarrow> (if c \<noteq> [] then ?info1(''errorCode'' \<mapsto> Str c) else ?info1) | None \<Rightarrow> ?info1"
  let ?info3 = "case errorId of Some i \<Rightarrow> (if i \<noteq> [] then ?info2(''errorId'' \<mapsto> Str i) else ?info2) | None \<Rightarrow> ?info2"
  let ?ev = "\<lparr>date = now, result = ERROR, context' = completeContext l, info = default_info (Some ?info3),
       elapsedTime = 0, action = None, errorCode = Some (''API_ERROR:'' @ toString 10 statusCode)\<rparr>"
  let ?res = "LoggerImpl_appendLog now ERROR None (Some (''API_ERROR:'' @ toString 10 statusCode))
       (Some ?info3) l"
  have eq: "LoggerImpl_exception J appState now
          (APIException msg statusCode requestURL code errorId) l = Inr (fst ?res, snd ?res)"
    by (simp add: Let_def)
  have "appends l ?ev ?res"
    by (rule LoggerImpl_appendLog_appends)
  from appends_queue [OF this l]
  have q: "queue (fst ?res) = queue l @ [?ev]"
    by simp
  have i: "info ?ev ''requestURL'' = Some (Str requestURL) \<and> info ?ev ''statusCode'' = None"
    by (simp add: default_info_def split: option.splits)
  from eq q i show "\<exists>l1 cb ev. LoggerImpl_exception J appState now
                (APIException msg statusCode requestURL code errorId) l = Inr (l1, cb) \<and>
          queue l1 = queue l @ [ev] \<and>
          result ev = ERROR \<and>
          errorCode ev = Some (''API_ERROR:'' @ toString 10 statusCode) \<and>
          info ev ''requestURL'' = Some (Str requestURL) \<and>
          info ev ''statusCode'' = None"
    by (intro exI [of _ "fst ?res"] exI [of _ "snd ?res"] exI [of _ ?ev]) simp
  let ?nv = "\<lparr>date = now, result = WARN, context' = completeContext l,
       info = default_info (Some [''errorMessage'' \<mapsto> Str msg]),
       elapsedTime = 0, action = None, errorCode = Some ''NETWORK_FAILURE''\<rparr>"
  let ?nres = "LoggerImpl_appendLog now WARN None (Some ''NETWORK_FAILURE'')
       (Some [''errorMessage'' \<mapsto> Str msg]) l"
  have neq: "LoggerImpl_exception J appState now (NetworkConnectionException msg) l =
      Inr (fst ?nres, snd ?nres)"
    by simp
  have "appends l ?nv ?nres"
    by (rule LoggerImpl_appendLog_appends)
  from appends_queue [OF this l]
  have "queue (fst ?nres) = queue l @ [?nv]"
    by simp
  with neq show "\<exists>l1 cb ev. LoggerImpl_exception J appState now (NetworkConnectionException msg) l =
            Inr (l1, cb) \<and>
          queue l1 = queue l @ [ev] \<and>
          result ev = WARN \<and> errorCode ev = Some ''NETWORK_FAILURE''"
    by (intro exI [of _ "fst ?nres"] exI [of _ "snd ?nres"] exI [of _ ?nv]) simp
next
  assume el: "valid_queue el"
  let ?info = "[''errorMessage'' \<mapsto> Str msg, ''requestURL'' \<mapsto> Str requestURL,
                ''statusCode'' \<mapsto> Str (toString 10 statusCode)]"
  let ?ev = "\<lparr>date = now, result = ERROR, context' = completeContext el, info = ?info,
       elapsedTime = 0, action = None, errorCode = Some (''API_ERROR:'' @ toString 10 statusCode),
       id' = toString 16 (uuidCounter el)\<rparr>"
  let ?res = "EventLogger_appendLog now (''API_ERROR:'' @ toString 10 statusCode) ERROR ?info el"
  have eq: "EventLogger_log J appState now
          (Inr (APIException msg statusCode requestURL code errorId)) info' el = Inr (fst ?res, snd ?res)"
    by (simp add: Let_def)
  have "appends el ?ev ?res"
    using EventLogger_appendLog_appends [of el now ERROR ?info "''API_ERROR:'' @ toString 10 statusCode"]
    by simp
  from appends_queue [OF this el]
  have "queue (fst ?res) = queue el @ [?ev]"
    by simp
  with eq show "\<exists>el1 cb ev. EventLogger_log J appState now
                (Inr (APIException msg statusCode requestURL code errorId)) info' el = Inr (el1, cb) \<and>
          queue el1 = queue el @ [ev] \<and>
          result ev = ERROR \<and>
          errorCode ev = Some (''API_ERROR:'' @ toString 10 statusCode) \<and>
          info ev ''requestURL'' = Some (Str requestURL) \<and>
          info ev ''statusCode'' = Some (Str (toString 10 statusCode))"
    by (intro exI [of _ "fst ?res"] exI [of _ "snd ?res"] exI [of _ ?ev]) simp
  let ?nv = "\<lparr>date = now, result = WARN, context' = completeContext el,
       info = [''errorMessage'' \<mapsto> Str msg],
       elapsedTime = 0, action = None, errorCode = Some ''NETWORK_FAILURE'',
       id' = toString 16 (uuidCounter el)\<rparr>"
  let ?nres = "EventLogger_appendLog now ''NETWORK_FAILURE'' WARN [''errorMessage'' \<mapsto> Str msg] el"
  have neq: "EventLogger_log J appState now (Inr (NetworkConnectionException msg)) info' el =
      Inr (fst ?nres, snd ?nres)"
    by simp
  have "appends el ?nv ?nres"
    using EventLogger_appendLog_appends [of el now WARN "[''errorMessage'' \<mapsto> Str msg]" "''NETWORK_FAILURE''"]
    by simp
  from appends_queue [OF this el]
  have "queue (fst ?nres) = queue el @ [?nv]"
    by simp
  with neq show "\<exists>el1 cb ev. EventLogger_log J appState now (Inr (NetworkConnectionException msg)) info' el =
            Inr (el1, cb) \<and>
          queue el1 = queue el @ [ev] \<and>
          result ev = WARN \<and> errorCode ev = Some ''NETWORK_FAILURE''"
    by (intro exI [of _ "fst ?nres"] exI [of _ "snd ?nres"] exI [of _ ?nv]) simp
next
  show "parseDecimal (toString 10 statusCode) = statusCode"
    by (rule parseDecimal_toString)
qed

text \<open>
  The claim as the spec states it fails for \<^verbatim>\<open>LoggerImpl.exception\<close>: logging an
  \<^verbatim>\<open>APIException\<close> with status 404 gives an event without \<^verbatim>\<open>info.statusCode\<close>
  (\<^verbatim>\<open>EventLogger.log\<close> gives \<^verbatim>\<open>"404"\<close>).
\<close>

theorem LoggerImpl_exception_statusCode_counterexample:
  "map_sum id (\<lambda>res. map (\<lambda>ev. (result ev, errorCode ev, info ev ''requestURL'', info ev ''statusCode''))
        (queue (fst res)))
     (LoggerImpl_exception json0 Map.empty 1000
        (APIException ''Not Found'' 404 ''/api/cart'' None None) logger0) =
     Inr [(ERROR, Some ''API_ERROR:404'', Some (Str ''/api/cart''), None)] \<and>
   map_sum id (\<lambda>res. map (\<lambda>ev. (result ev, errorCode ev, info ev ''requestURL'', info ev ''statusCode''))
        (queue (fst res)))
     (EventLogger_log json0 Map.empty 1000
        (Inr (APIException ''Not Found'' 404 ''/api/cart'' None None)) None eventLogger0) =
     Inr [(ERROR, Some ''API_ERROR:404'', Some (Str ''/api/cart''), Some (Str ''404''))]"
  by (simp add: logger0_def eventLogger0_def LoggerImpl_appendLog_def EventLogger_appendLog_def
      queue_def Let_def toString.simps [of 10 404] toString.simps [of 10 40] toString.simps [of 10 4]
      digit_def)

theorem exception_classification_witness:
  "valid_queue logger0 \<and> valid_queue eventLogger0 \<and>
   (\<exists>l1 cb ev. LoggerImpl_exception json0 Map.empty 1000
              (APIException ''Not Found'' 404 ''/api/cart'' None None) logger0 = Inr (l1, cb) \<and>
        queue l1 = queue logger0 @ [ev] \<and>
        result ev = ERROR \<and> errorCode ev = Some ''API_ERROR:404'' \<and>
        info ev ''requestURL'' = Some (Str ''/api/cart'') \<and> info ev ''statusCode'' = None) \<and>
   (\<exists>el1 cb ev. EventLogger_log json0 Map.empty 1000
              (Inr (APIException ''Not Found'' 404 ''/api/cart'' None None)) None eventLogger0 =
            Inr (el1, cb) \<and>
        queue el1 = queue eventLogger0 @ [ev] \<and>
        result ev = ERROR \<and> errorCode ev = Some ''API_ERROR:404'' \<and>
        info ev ''requestURL'' = Some (Str ''/api/cart'') \<and> info ev ''statusCode'' = Some (Str ''404''))"
proof -
  have w: "valid_queue logger0" "valid_queue eventLogger0"
    by (simp_all add: valid_queue_def logger0_def eventLogger0_def)
  have s: "toString 10 404 = ''404''"
    by (simp add: toString.simps [of 10 404] toString.simps [of 10 40] toString.simps [of 10 4] digit_def)
  from w exception_classification
    [of logger0 json0 Map.empty 1000 "''Not Found''" 404 "''/api/cart''" None None eventLogger0 None]
  show ?thesis unfolding s by simp
qed

subsection \<open>C9: one event for each call, timed by its callback\<close>

text \<open>
  C9, amended.  A call of \<^verbatim>\<open>info\<close>, \<^verbatim>\<open>warn\<close>, \<^verbatim>\<open>error\<close> or \<^verbatim>\<open>exception\<close> of a
  \<^verbatim>\<open>LoggerImpl\<close>, or of \<^verbatim>\<open>log\<close> of an \<^verbatim>\<open>EventLogger\<close>, throws exactly when
  \<^verbatim>\<open>JSON.stringify\<close> throws while the \<^verbatim>\<open>info\<close> of a \<^verbatim>\<open>RuntimeException\<close> (its error
  object, then the State Tree) or of a \<^verbatim>\<open>ReactLifecycleException\<close> (the State Tree)
  is written, and it throws what \<^verbatim>\<open>JSON.stringify\<close> throws; every other call returns.
  On a logger whose queue refers to existing events (\<open>valid_queue\<close>: every logger a
  history leads to), every call that returns appends
  exactly one event to the end of the queue, created at the time of the call with
  \<^verbatim>\<open>elapsedTime\<close> zero, and returns a callback for that event.  Whatever happens to the
  logger afterwards (more calls, other callbacks, a change of context, emptying the
  queue): as long as the callback has not been called, the event's \<^verbatim>\<open>elapsedTime\<close> is
  zero; and when the callback is called at time \<open>t\<close>, the event's \<^verbatim>\<open>elapsedTime\<close>
  becomes \<open>t\<close> minus the time of the event's creation.
\<close>

theorem logger_call_appends_and_times:
  "((LoggerImpl_perform J appState now c l = Inl e) = (LoggerImpl_failure J appState c = Some e)) \<and>
   (LoggerImpl_failure J appState c = None \<longrightarrow>
      (\<exists>l1 cb. LoggerImpl_perform J appState now c l = Inr (l1, cb))) \<and>
   (valid_queue l \<and> LoggerImpl_perform J appState now c l = Inr (l1, cb) \<longrightarrow>
      logQueue l1 = logQueue l @ [cb] \<and>
      (\<exists>ev. queue l1 = queue l @ [ev] \<and> eventObjects l1 ! cb = ev \<and>
            elapsedTime ev = 0 \<and> date ev = now) \<and>
      (list_all (\<lambda>(appState', now', op). op \<noteq> Invoke cb) tr \<longrightarrow>
         elapsedTime (eventObjects (foldl (LoggerImpl_step J) l1 tr) ! cb) = 0) \<and>
      elapsedTime (eventObjects (callback cb t (foldl (LoggerImpl_step J) l1 tr)) ! cb) = t - now) \<and>
   ((EventLogger_log J appState now x info' el = Inl e) = (EventLogger_failure J appState x = Some e)) \<and>
   (EventLogger_failure J appState x = None \<longrightarrow>
      (\<exists>el1 ecb. EventLogger_log J appState now x info' el = Inr (el1, ecb))) \<and>
   (valid_queue el \<and> EventLogger_log J appState now x info' el = Inr (el1, ecb) \<longrightarrow>
      logQueue el1 = logQueue el @ [ecb] \<and>
      (\<exists>ev. queue el1 = queue el @ [ev] \<and> eventObjects el1 ! ecb = ev \<and>
            elapsedTime ev = 0 \<and> date ev = now) \<and>
      (list_all (\<lambda>(appState', now', op). op \<noteq> EInvoke ecb) etr \<longrightarrow>
         elapsedTime (eventObjects (foldl (EventLogger_step J) el1 etr) ! ecb) = 0) \<and>
      elapsedTime (eventObjects (callback ecb t (foldl (EventLogger_step J) el1 etr)) ! ecb) = t - now)"
proof (intro conjI impI; (elim conjE)?)
  show "(LoggerImpl_perform J appState now c l = Inl e) = (LoggerImpl_failure J appState c = Some e)"
    by (rule LoggerImpl_perform_Inl)
  show "(EventLogger_log J appState now x info' el = Inl e) = (EventLogger_failure J appState x = Some e)"
    by (rule EventLogger_log_Inl)
next
  assume "LoggerImpl_failure J appState c = None"
  from LoggerImpl_perform_returns [OF this, of now l]
  show "\<exists>l1 cb. LoggerImpl_perform J appState now c l = Inr (l1, cb)"
    by auto
next
  assume "EventLogger_failure J appState x = None"
  from EventLogger_log_returns [OF this, of now info' el]
  show "\<exists>el1 ecb. EventLogger_log J appState now x info' el = Inr (el1, ecb)"
    by auto
next
  assume l: "valid_queue l" and p: "LoggerImpl_perform J appState now c l = Inr (l1, cb)"
  obtain ev where ev: "appends l ev (l1, cb)" "elapsedTime ev = 0" "date ev = now"
    using LoggerImpl_perform_appends [OF p] by auto
  from appends_queue [OF ev(1) l]
  have q: "queue l1 = queue l @ [ev]" "eventObjects l1 ! cb = ev" by simp_all
  from ev(1) have cb: "cb < length (eventObjects l1)" and lq: "logQueue l1 = logQueue l @ [cb]"
    by (simp_all add: appends_def)
  show "logQueue l1 = logQueue l @ [cb]" by (rule lq)
  show "\<exists>ev. queue l1 = queue l @ [ev] \<and> eventObjects l1 ! cb = ev \<and> elapsedTime ev = 0 \<and> date ev = now"
    using q ev by blast
  show "elapsedTime (eventObjects (callback cb t (foldl (LoggerImpl_step J) l1 tr)) ! cb) = t - now"
    using LoggerImpl_run_date [OF cb, of J tr] q ev by (simp add: callback_same)
  assume "list_all (\<lambda>(appState', now', op). op \<noteq> Invoke cb) tr"
  from LoggerImpl_run_untouched [OF cb this, of J]
  show "elapsedTime (eventObjects (foldl (LoggerImpl_step J) l1 tr) ! cb) = 0"
    using q ev by simp
next
  assume l: "valid_queue el" and p: "EventLogger_log J appState now x info' el = Inr (el1, ecb)"
  obtain ev where ev: "appends el ev (el1, ecb)" "elapsedTime ev = 0" "date ev = now"
    using EventLogger_log_appends [OF p] by auto
  from appends_queue [OF ev(1) l]
  have q: "queue el1 = queue el @ [ev]" "eventObjects el1 ! ecb = ev" by simp_all
  from ev(1) have cb: "ecb < length (eventObjects el1)" and lq: "logQueue el1 = logQueue el @ [ecb]"
    by (simp_all add: appends_def)
  show "logQueue el1 = logQueue el @ [ecb]" by (rule lq)
  show "\<exists>ev. queue el1 = queue el @ [ev] \<and> eventObjects el1 ! ecb = ev \<and> elapsedTime ev = 0 \<and> date ev = now"
    using q ev by blast
  show "elapsedTime (eventObjects (callback ecb t (foldl (EventLogger_step J) el1 etr)) ! ecb) = t - now"
    using EventLogger_run_date [OF cb, of J etr] q ev by (simp add: callback_same)
  assume "list_all (\<lambda>(appState', now', op). op \<noteq> EInvoke ecb) etr"
  from EventLogger_run_untouched [OF cb this, of J]
  show "elapsedTime (eventObjects (foldl (EventLogger_step J) el1 etr) ! ecb) = 0"
    using q ev by simp
qed

text \<open>
  The claim as the spec states it fails for a call that throws: neither logger has a
  \<^verbatim>\<open>try\<close> around \<^verbatim>\<open>JSON.stringify\<close>, which throws a \<^verbatim>\<open>TypeError\<close> on an error
  object that refers to itself.  Logging such a \<^verbatim>\<open>RuntimeException\<close> throws, returns
  no callback, and the queue stays empty.
\<close>

theorem logger_call_throws_counterexample:
  "LoggerImpl_perform json0 Map.empty 1000
       (exception_call (RuntimeException ''boom'' (Obj 9))) logger0 = Inl (Obj 40) \<and>
   queue (LoggerImpl_step json0 logger0
       (Map.empty, 1000, Call (exception_call (RuntimeException ''boom'' (Obj 9))))) = [] \<and>
   EventLogger_log json0 Map.empty 1000
       (Inr (RuntimeException ''boom'' (Obj 9))) None eventLogger0 = Inl (Obj 40) \<and>
   queue (EventLogger_step json0 eventLogger0
       (Map.empty, 1000, ECall (Inr (RuntimeException ''boom'' (Obj 9))) None)) = []"
  by (simp add: json0_def logger0_def eventLogger0_def queue_def)

theorem logger_call_appends_and_times_witness:
  "LoggerImpl_failure json0 Map.empty (exception_call (RuntimeException ''boom'' (Obj 9))) = Some (Obj 40) \<and>
   LoggerImpl_perform json0 Map.empty 1000
       (exception_call (RuntimeException ''boom'' (Obj 9))) logger0 = Inl (Obj 40) \<and>
   LoggerImpl_failure json0 Map.empty (exception_call (RuntimeException ''boom'' Undefined)) = None \<and>
   valid_queue logger0 \<and>
   LoggerImpl_perform json0 Map.empty 1000
       (exception_call (RuntimeException ''boom'' Undefined)) logger0 =
     Inr (fst (LoggerImpl_appendLog 1000 ERROR None (Some ''JS_ERROR'')
            (Some [''errorMessage'' \<mapsto> Str ''boom'', ''stackTrace'' \<mapsto> Undefined,
                   ''appState'' \<mapsto> Str ''{}'']) logger0), 0) \<and>
   list_all (\<lambda>(appState', now', op). op \<noteq> Invoke 0) trace0 \<and>
   elapsedTime (eventObjects (foldl (LoggerImpl_step json0)
      (fst (LoggerImpl_appendLog 1000 ERROR None (Some ''JS_ERROR'')
            (Some [''errorMessage'' \<mapsto> Str ''boom'', ''stackTrace'' \<mapsto> Undefined,
                   ''appState'' \<mapsto> Str ''{}'']) logger0)) trace0) ! 0) = 0 \<and>
   elapsedTime (eventObjects (callback 0 1050 (foldl (LoggerImpl_step json0)
      (fst (LoggerImpl_appendLog 1000 ERROR None (Some ''JS_ERROR'')
            (Some [''errorMessage'' \<mapsto> Str ''boom'', ''stackTrace'' \<mapsto> Undefined,
                   ''appState'' \<mapsto> Str ''{}'']) logger0)) trace0)) ! 0) = 50 \<and>
   EventLogger_failure json0 Map.empty (Inr (RuntimeException ''boom'' (Obj 9))) = Some (Obj 40) \<and>
   EventLogger_log json0 Map.empty 1000
       (Inr (RuntimeException ''boom'' (Obj 9))) None eventLogger0 = Inl (Obj 40) \<and>
   EventLogger_failure json0 Map.empty (Inl ''x'') = None \<and>
   valid_queue eventLogger0 \<and>
   EventLogger_log json0 Map.empty 1000 (Inl ''x'') None eventLogger0 =
     Inr (fst (EventLogger_appendLog 1000 ''x'' OK Map.empty eventLogger0), 0) \<and>
   list_all (\<lambda>(appState', now', op). op \<noteq> EInvoke 0) etrace0 \<and>
   elapsedTime (eventObjects (foldl (EventLogger_step json0)
      (fst (EventLogger_appendLog 1000 ''x'' OK Map.empty eventLogger0)) etrace0) ! 0) = 0 \<and>
   elapsedTime (eventObjects (callback 0 1050 (foldl (EventLogger_step json0)
      (fst (EventLogger_appendLog 1000 ''x'' OK Map.empty eventLogger0)) etrace0)) ! 0) = 50"
proof -
  let ?boom = "exception_call (RuntimeException ''boom'' (Obj 9))"
  let ?c = "exception_call (RuntimeException ''boom'' Undefined)"
  let ?l1 = "fst (LoggerImpl_appendLog 1000 ERROR None (Some ''JS_ERROR'')
            (Some [''errorMessage'' \<mapsto> Str ''boom'', ''stackTrace'' \<mapsto> Undefined,
                   ''appState'' \<mapsto> Str ''{}'']) logger0)"
  let ?eboom = "Inr (RuntimeException ''boom'' (Obj 9)) :: string + Exception"
  let ?e1 = "fst (EventLogger_appendLog 1000 ''x'' OK Map.empty eventLogger0)"
  have f: "LoggerImpl_failure json0 Map.empty ?boom = Some (Obj 40)"
    "LoggerImpl_failure json0 Map.empty ?c = None"
    "EventLogger_failure json0 Map.empty ?eboom = Some (Obj 40)"
    "EventLogger_failure json0 Map.empty (Inl ''x'') = None"
    by (simp_all add: json0_def)
  have a: "valid_queue logger0 \<and> LoggerImpl_perform json0 Map.empty 1000 ?c logger0 = Inr (?l1, 0)"
    by (simp add: logger_defs valid_queue_def LoggerImpl_appendLog_def Let_def)
  have b: "list_all (\<lambda>(appState', now', op). op \<noteq> Invoke 0) trace0"
    by (simp add: trace0_def)
  have c: "valid_queue eventLogger0 \<and>
      EventLogger_log json0 Map.empty 1000 (Inl ''x'') None eventLogger0 = Inr (?e1, 0)"
    by (simp add: logger_defs valid_queue_def EventLogger_appendLog_def default_info_def Let_def)
  have d: "list_all (\<lambda>(appState', now', op). op \<noteq> EInvoke 0) etrace0"
    by (simp add: etrace0_def)
  note t = logger_call_appends_and_times
    [of json0 Map.empty 1000 ?c logger0 "Obj 40" ?l1 0 trace0 1050
        "Inl ''x''" None eventLogger0 ?e1 0 etrace0]
  note u = logger_call_appends_and_times
    [of json0 Map.empty 1000 ?boom logger0 "Obj 40" ?l1 0 trace0 1050
        ?eboom None eventLogger0 ?e1 0 etrace0]
  from u f have 0: "LoggerImpl_perform json0 Map.empty 1000 ?boom logger0 = Inl (Obj 40)"
    "EventLogger_log json0 Map.empty 1000 ?eboom None eventLogger0 = Inl (Obj 40)"
    by blast+
  from t a b have 1: "elapsedTime (eventObjects (foldl (LoggerImpl_step json0) ?l1 trace0) ! 0) = 0"
    by blast
  from t a have 2: "elapsedTime (eventObjects (callback 0 1050 (foldl (LoggerImpl_step json0) ?l1 trace0)) ! 0) = 1050 - 1000"
    by blast
  from t c d have 3: "elapsedTime (eventObjects (foldl (EventLogger_step json0) ?e1 etrace0) ! 0) = 0"
    by blast
  from t c have 4: "elapsedTime (eventObjects (callback 0 1050 (foldl (EventLogger_step json0) ?e1 etrace0)) ! 0) = 1050 - 1000"
    by blast
  from f a b c d 0 1 2 3 4 show ?thesis by simp
qed

subsection \<open>C10: calling a callback again\<close>

text \<open>
  C10.  Calling a callback, of either logger, changes the \<^verbatim>\<open>elapsedTime\<close> of its own
  event and nothing else: the queue holds the same references in the same order, no
  event object is created or removed, every other event and every other field of the
  event are as before, and the logger's other fields too.  Calling it again overwrites
  the \<^verbatim>\<open>elapsedTime\<close> with the difference measured at the later call: two calls
  leave the logger as the later call alone would.
\<close>

theorem callback_overwrites_elapsedTime_only:
  "logQueue (callback cb t l) = logQueue l \<and>
   environmentContext (callback cb t l) = environmentContext l \<and>
   Logger.more (callback cb t l) = Logger.more l \<and>
   length (eventObjects (callback cb t l)) = length (eventObjects l) \<and>
   length (queue (callback cb t l)) = length (queue l) \<and>
   (\<forall>r. r \<noteq> cb \<longrightarrow> eventObjects (callback cb t l) ! r = eventObjects l ! r) \<and>
   (cb < length (eventObjects l) \<longrightarrow>
      eventObjects (callback cb t l) ! cb =
        (eventObjects l ! cb)\<lparr>elapsedTime := t - date (eventObjects l ! cb)\<rparr>) \<and>
   callback cb t2 (callback cb t1 l) = callback cb t2 l"
  by (simp add: callback_fields callback_other callback_same callback_twice queue_def)

theorem callback_overwrites_elapsedTime_only_witness:
  "0 < length (eventObjects (fst (LoggerImpl_info 1000 ''x'' None logger0))) \<and>
   (1::nat) \<noteq> 0 \<and>
   queue (callback 0 1050 (fst (LoggerImpl_info 1000 ''x'' None logger0))) =
     [(eventObjects (fst (LoggerImpl_info 1000 ''x'' None logger0)) ! 0)\<lparr>elapsedTime := 50\<rparr>] \<and>
   queue (callback 0 1080 (callback 0 1050 (fst (LoggerImpl_info 1000 ''x'' None logger0)))) =
     [(eventObjects (fst (LoggerImpl_info 1000 ''x'' None logger0)) ! 0)\<lparr>elapsedTime := 80\<rparr>] \<and>
   length (eventObjects (fst (EventLogger_appendLog 1010 ''y'' OK Map.empty
       (fst (EventLogger_appendLog 1000 ''x'' OK Map.empty eventLogger0))))) = 2 \<and>
   eventObjects (callback 0 1050 (fst (EventLogger_appendLog 1010 ''y'' OK Map.empty
       (fst (EventLogger_appendLog 1000 ''x'' OK Map.empty eventLogger0))))) ! 1 =
     eventObjects (fst (EventLogger_appendLog 1010 ''y'' OK Map.empty
       (fst (EventLogger_appendLog 1000 ''x'' OK Map.empty eventLogger0)))) ! 1"
proof -
  let ?l1 = "fst (LoggerImpl_info 1000 ''x'' None logger0)"
  let ?e2 = "fst (EventLogger_appendLog 1010 ''y'' OK Map.empty
       (fst (EventLogger_appendLog 1000 ''x'' OK Map.empty eventLogger0)))"
  have len: "0 < length (eventObjects ?l1)" and q: "logQueue ?l1 = [0]"
    and dt: "date (eventObjects ?l1 ! 0) = 1000"
    by (simp_all add: logger_defs LoggerImpl_info_def LoggerImpl_appendLog_def Let_def)
  have len2: "length (eventObjects ?e2) = 2"
    by (simp add: logger_defs EventLogger_appendLog_def Let_def)
  note t1 = callback_overwrites_elapsedTime_only [of 0 1050 ?l1 1080 1050]
  note t2 = callback_overwrites_elapsedTime_only [of 0 1080 ?l1 1080 1050]
  note t3 = callback_overwrites_elapsedTime_only [of 0 1050 ?e2 1080 1050]
  from t1 len dt q have 1: "queue (callback 0 1050 ?l1) = [(eventObjects ?l1 ! 0)\<lparr>elapsedTime := 50\<rparr>]"
    by (simp add: queue_def)
  from t1 t2 len dt q have 2: "queue (callback 0 1080 (callback 0 1050 ?l1)) = [(eventObjects ?l1 ! 0)\<lparr>elapsedTime := 80\<rparr>]"
    by (simp add: queue_def)
  from t3 have 3: "eventObjects (callback 0 1050 ?e2) ! 1 = eventObjects ?e2 ! 1"
    by simp
  from len len2 1 2 3 show ?thesis by simp
qed

end
